theory Spec2Isabelle
  imports Complex_Main "HOL-Library.AList"
begin

section \<open>JavaScript values\<close>

text \<open>
  \<open>sanitizeData\<close> takes a value of type \<open>any\<close>, so its argument is modelled as a
  JavaScript value. A string is a list of code units (the code units below 256 are
  representable). An array is an object too: besides its elements it carries named
  properties, which \<open>sanitizeData\<close> can add to it. Objects keep their own properties
  in insertion order.
\<close>

datatype jsval =
    JUndefined
  | JNull
  | JBool bool
  | JNum rat
  | JNaN
  | JStr string
  | JArr "jsval list" "(string \<times> jsval) list"
  | JObj "(string \<times> jsval) list"

datatype js_error = TypeError

text \<open>\<open>!v\<close> is \<open>\<not> truthy v\<close>: the falsy values are undefined, null, false, 0, NaN and the
  empty string.\<close>

fun truthy :: "jsval \<Rightarrow> bool" where
  "truthy JUndefined = False"
| "truthy JNull = False"
| "truthy (JBool b) = b"
| "truthy (JNum n) = (n \<noteq> 0)"
| "truthy JNaN = False"
| "truthy (JStr s) = (s \<noteq> [])"
| "truthy (JArr xs ps) = True"
| "truthy (JObj ps) = True"

fun is_object :: "jsval \<Rightarrow> bool" where
  "is_object (JArr xs ps) = True"
| "is_object (JObj ps) = True"
| "is_object v = False"

text \<open>The named own properties of an object; a primitive has none.\<close>

fun props :: "jsval \<Rightarrow> (string \<times> jsval) list" where
  "props (JArr xs ps) = ps"
| "props (JObj ps) = ps"
| "props v = []"

text \<open>
  \<open>data.k\<close> for a key \<open>k\<close> that no built-in prototype defines (the two keys read by
  \<open>sanitizeData\<close> are such keys): reading from undefined or null throws a TypeError, a
  missing property reads as undefined.
\<close>

fun getProp :: "jsval \<Rightarrow> string \<Rightarrow> js_error + jsval" where
  "getProp JUndefined k = Inl TypeError"
| "getProp JNull k = Inl TypeError"
| "getProp v k = Inr (case map_of (props v) k of None \<Rightarrow> JUndefined | Some x \<Rightarrow> x)"

text \<open>
  \<open>data.k = x\<close> in strict mode (the source is an ES module): an existing own property
  keeps its place, a new one is appended; assigning to a property of a primitive
  throws a TypeError.
\<close>

fun setProp :: "jsval \<Rightarrow> string \<Rightarrow> jsval \<Rightarrow> js_error + jsval" where
  "setProp (JObj ps) k x = Inr (JObj (AList.update k x ps))"
| "setProp (JArr xs ps) k x = Inr (JArr xs (AList.update k x ps))"
| "setProp v k x = Inl TypeError"

definition bind_err :: "'e + 'a \<Rightarrow> ('a \<Rightarrow> 'e + 'b) \<Rightarrow> 'e + 'b" where
  "bind_err m f = (case m of Inl e \<Rightarrow> Inl e | Inr x \<Rightarrow> f x)"

section \<open>The document sanitizer (services/dataUtils)\<close>

text \<open>Modelled from the spec: the constant \<open>DEFAULT_WEEK_NAME\<close> is declared in the types
  module, which is not among the sources; the specification gives its value.\<close>

definition DEFAULT_WEEK_NAME :: string where
  "DEFAULT_WEEK_NAME = ''Semana Atual''"

definition emptyDoc :: jsval where
  "emptyDoc = JObj [(''active_trips'', JArr [] []), (''currentWeekName'', JStr DEFAULT_WEEK_NAME)]"

text \<open>\<open>if (!data.k) data.k = x\<close>\<close>

definition fillIfFalsy :: "string \<Rightarrow> jsval \<Rightarrow> jsval \<Rightarrow> js_error + jsval" where
  "fillIfFalsy k x data =
     bind_err (getProp data k) (\<lambda>cur. if \<not> truthy cur then setProp data k x else Inr data)"

text \<open>
  The built-in \<open>JSON.parse\<close> is a parameter: \<open>None\<close> stands for the SyntaxError it
  throws on text that is not JSON.
\<close>

definition sanitizeData :: "(string \<Rightarrow> jsval option) \<Rightarrow> jsval \<Rightarrow> js_error + jsval" where
  "sanitizeData JSON_parse data =
     (if \<not> truthy data then Inr emptyDoc
      else
        (case (case data of JStr s \<Rightarrow> JSON_parse s | _ \<Rightarrow> Some data) of
           None \<Rightarrow> Inr emptyDoc
         | Some data1 \<Rightarrow>
             bind_err (fillIfFalsy ''active_trips'' (JArr [] []) data1)
               (fillIfFalsy ''currentWeekName'' (JStr DEFAULT_WEEK_NAME))))"

text \<open>Auxiliary notions for stating the properties of \<open>sanitizeData\<close>: the value an
  own property reads as, the elements of an array, and an object with its named
  properties replaced.\<close>

definition own :: "jsval \<Rightarrow> string \<Rightarrow> jsval" where
  "own v k = (case map_of (props v) k of None \<Rightarrow> JUndefined | Some x \<Rightarrow> x)"

fun elements :: "jsval \<Rightarrow> jsval list option" where
  "elements (JArr xs ps) = Some xs"
| "elements v = None"

fun withProps :: "jsval \<Rightarrow> (string \<times> jsval) list \<Rightarrow> jsval" where
  "withProps (JArr xs ps) qs = JArr xs qs"
| "withProps (JObj ps) qs = JObj qs"
| "withProps v qs = v"

definition filled :: "string \<Rightarrow> jsval \<Rightarrow> jsval \<Rightarrow> jsval" where
  "filled k x d = (if truthy (own d k) then d else withProps d (AList.update k x (props d)))"

definition sane :: "jsval \<Rightarrow> bool" where
  "sane r = (is_object r \<and> truthy (own r ''active_trips'') \<and> truthy (own r ''currentWeekName''))"

section \<open>Strings and numbers of the JavaScript library\<close>

text \<open>\<open>String(n)\<close> for a natural number: its decimal digits (\<open>digit_char\<close> is applied
  to numbers below 10 only).\<close>

definition digit_char :: "nat \<Rightarrow> char" where
  "digit_char n = ''0123456789'' ! n"

fun nat_to_string :: "nat \<Rightarrow> string" where
  "nat_to_string n =
     (if n < 10 then [digit_char n] else nat_to_string (n div 10) @ [digit_char (n mod 10)])"

declare nat_to_string.simps [simp del]

text \<open>\<open>s.padStart(2, '0')\<close>\<close>

definition padStart2 :: "string \<Rightarrow> string" where
  "padStart2 s = replicate (2 - length s) CHR ''0'' @ s"

text \<open>White space, as \<open>trim\<close> and the pattern \<open>\s\<close> see it, among the code units below 256:
  tab, line feed, vertical tab, form feed, carriage return, space, no-break space.\<close>

definition is_space :: "char \<Rightarrow> bool" where
  "is_space c = (of_char c \<in> {9::nat, 10, 11, 12, 13, 32, 160})"

definition trim :: "string \<Rightarrow> string" where
  "trim s = rev (dropWhile is_space (rev (dropWhile is_space s)))"

text \<open>\<open>s.split(c)\<close> for a one-character separator: always at least one piece.\<close>

fun split_on :: "char \<Rightarrow> string \<Rightarrow> string list" where
  "split_on c [] = [[]]"
| "split_on c (x # xs) =
     (if x = c then [] # split_on c xs
      else (case split_on c xs of p # ps \<Rightarrow> (x # p) # ps | [] \<Rightarrow> [[x]]))"

text \<open>\<open>toLowerCase\<close> on the code units below 256: the letters A to Z, and the accented
  capitals from 192 to 222 except the multiplication sign 215.\<close>

definition lower_char :: "char \<Rightarrow> char" where
  "lower_char c =
     (let n = of_char c :: nat
      in if (65 \<le> n \<and> n \<le> 90) \<or> (192 \<le> n \<and> n \<le> 222 \<and> n \<noteq> 215) then char_of (n + 32) else c)"

definition toLowerCase :: "string \<Rightarrow> string" where
  "toLowerCase s = map lower_char s"

text \<open>
  \<open>xs.sort((a, b) => key(a).localeCompare(key(b), 'pt-BR'))\<close>. The collation is a
  parameter \<open>cmp\<close> (negative, zero or positive); the sort is stable, as the language
  requires.
\<close>

fun insertBy :: "(string \<Rightarrow> string \<Rightarrow> int) \<Rightarrow> ('a \<Rightarrow> string) \<Rightarrow> 'a \<Rightarrow> 'a list \<Rightarrow> 'a list" where
  "insertBy cmp key x [] = [x]"
| "insertBy cmp key x (y # ys) =
     (if cmp (key x) (key y) \<le> 0 then x # y # ys else y # insertBy cmp key x ys)"

definition sortBy :: "(string \<Rightarrow> string \<Rightarrow> int) \<Rightarrow> ('a \<Rightarrow> string) \<Rightarrow> 'a list \<Rightarrow> 'a list" where
  "sortBy cmp key xs = foldr (insertBy cmp key) xs []"

text \<open>\<open>Array.from(new Set(xs))\<close>: the first occurrence of each element, in order.\<close>

fun dedupe :: "'a list \<Rightarrow> 'a list" where
  "dedupe [] = []"
| "dedupe (x # xs) = x # dedupe (filter (\<lambda>y. y \<noteq> x) xs)"

text \<open>\<open>xs.findIndex(P)\<close>, with \<open>None\<close> for -1.\<close>

fun findIndex :: "('a \<Rightarrow> bool) \<Rightarrow> 'a list \<Rightarrow> nat option" where
  "findIndex P [] = None"
| "findIndex P (x # xs) = (if P x then Some 0 else map_option Suc (findIndex P xs))"

section \<open>The document as the application sees it (App)\<close>

text \<open>
  Modelled from the spec: the types \<open>Participant\<close>, \<open>Trip\<close>, \<open>TripType\<close> and \<open>AppData\<close> are
  declared in the types module, which is not among the sources. The specification
  gives their fields; the field \<open>id\<close> of a participant is called \<open>pid\<close> here.
\<close>

datatype TripType = Ida | Volta

record Participant =
  pid :: string
  name :: string
  paid :: bool

record Trip =
  day :: string
  time :: "string option"
  type :: TripType
  participants :: "Participant list"

text \<open>
  A document is an object: its own properties in insertion order. A property holds an
  array of trips (\<open>active_trips\<close> and the archive slots) or a string (\<open>currentWeekName\<close>).
  The functions of the application take a document of the declared type, in which
  \<open>active_trips\<close> is an array of trips and \<open>currentWeekName\<close> is a string; where one of
  them reads these two fields of a document that is not so, the model gives \<open>None\<close>
  and says nothing about the code.
\<close>

datatype docval = Trips "Trip list" | Str string

type_synonym AppData = "(string \<times> docval) list"

definition active_trips :: "AppData \<Rightarrow> Trip list option" where
  "active_trips d = (case map_of d ''active_trips'' of Some (Trips ts) \<Rightarrow> Some ts | _ \<Rightarrow> None)"

definition currentWeekName :: "AppData \<Rightarrow> string option" where
  "currentWeekName d = (case map_of d ''currentWeekName'' of Some (Str s) \<Rightarrow> Some s | _ \<Rightarrow> None)"

text \<open>The archive slots: every own property other than the two fields.\<close>

definition archiveSlots :: "AppData \<Rightarrow> (string \<times> docval) list" where
  "archiveSlots d = filter (\<lambda>kv. fst kv \<noteq> ''active_trips'' \<and> fst kv \<noteq> ''currentWeekName'') d"

text \<open>
  The properties every object inherits from \<open>Object.prototype\<close>; each of them is a
  function or an object, hence truthy.
\<close>

definition Object_prototype_keys :: "string list" where
  "Object_prototype_keys =
     [''constructor'', ''__defineGetter__'', ''__defineSetter__'', ''hasOwnProperty'',
      ''__lookupGetter__'', ''__lookupSetter__'', ''isPrototypeOf'', ''propertyIsEnumerable'',
      ''toString'', ''valueOf'', ''__proto__'', ''toLocaleString'']"

text \<open>Whether \<open>d[k]\<close> is truthy: an own property if there is one (an array is truthy, a
  string is truthy unless empty), an inherited one otherwise.\<close>

definition truthyProp :: "AppData \<Rightarrow> string \<Rightarrow> bool" where
  "truthyProp d k =
     (case map_of d k of
        Some (Trips ts) \<Rightarrow> True
      | Some (Str s) \<Rightarrow> s \<noteq> []
      | None \<Rightarrow> k \<in> set Object_prototype_keys)"

subsection \<open>Week rotation\<close>

text \<open>
  The clock is a parameter: \<open>today\<close> is \<open>new Date().toLocaleDateString('pt-BR')\<close> and \<open>now\<close>
  is \<open>Date.now()\<close>, in milliseconds. \<open>archiveName\<close> is the value of the variable of that name
  when the slot is written. The three assignments to \<open>newData\<close> are the three updates,
  innermost first.
\<close>

definition archiveSuffix :: "string \<Rightarrow> nat \<Rightarrow> string" where
  "archiveSuffix today now = '' (Arq. '' @ today @ ''-'' @ nat_to_string (now mod 1000) @ '')''"

definition archiveName :: "string \<Rightarrow> nat \<Rightarrow> AppData \<Rightarrow> string \<Rightarrow> string" where
  "archiveName today now newData nm =
     (if truthyProp newData nm \<or> nm = DEFAULT_WEEK_NAME then nm @ archiveSuffix today now else nm)"

definition autoArchiveCurrent :: "string \<Rightarrow> nat \<Rightarrow> AppData \<Rightarrow> (string option \<times> AppData) option" where
  "autoArchiveCurrent today now currentData =
     (case (active_trips currentData, currentWeekName currentData) of
        (Some trips, Some nm) \<Rightarrow>
          (let newData = currentData in
           if length trips > 0 \<or> (nm \<noteq> DEFAULT_WEEK_NAME \<and> \<not> truthyProp newData nm) then
             (let key = archiveName today now newData nm
              in Some (Some key,
                       AList.update ''currentWeekName'' (Str DEFAULT_WEEK_NAME)
                         (AList.update ''active_trips'' (Trips [])
                            (AList.update key (Trips trips) newData))))
           else Some (None, newData))
      | _ \<Rightarrow> None)"

subsection \<open>The state of the component and its handlers\<close>

text \<open>
  The state of the component: the document, the form of the add-trip dialog, and the
  effects a handler has on the outside, each as a log with the oldest entry first:
  the documents passed to \<open>saveAppData\<close>, the texts passed to \<open>alert\<close>. A toast is a
  value of its own type (its text holds characters above 255).
\<close>

datatype modal = ModalNone | ModalNewWeek | ModalAddTrip | ModalBackup

datatype toast = ToastWeekDeleted string | ToastTripsSaved

record App =
  data :: AppData
  modalOpen :: modal
  newTripDate :: string
  newTripTypes :: "TripType list"
  selectedExistingNames :: "string list"
  newParticipantInput :: string
  participantSearchTerm :: string
  toastMessage :: "toast option"
  saved :: "AppData list"
  alerts :: "string list"

definition saveData :: "AppData \<Rightarrow> App \<Rightarrow> App" where
  "saveData newData st = st\<lparr>data := newData, saved := saved st @ [newData]\<rparr>"

definition showToast :: "toast \<Rightarrow> App \<Rightarrow> App" where
  "showToast msg st = st\<lparr>toastMessage := Some msg\<rparr>"

definition alert :: "string \<Rightarrow> App \<Rightarrow> App" where
  "alert msg st = st\<lparr>alerts := alerts st @ [msg]\<rparr>"

text \<open>\<open>confirmed\<close> is the answer of the user to the \<open>confirm\<close> dialog.\<close>

definition handleDeleteWeek :: "bool \<Rightarrow> string \<Rightarrow> App \<Rightarrow> App" where
  "handleDeleteWeek confirmed weekName st =
     (let isActive = (map_of (data st) ''currentWeekName'' = Some (Str weekName)) in
      if \<not> confirmed then st
      else
        (let newData =
               (if isActive
                then AList.update ''currentWeekName'' (Str DEFAULT_WEEK_NAME)
                       (AList.update ''active_trips'' (Trips []) (data st))
                else AList.delete weekName (data st))
         in showToast (ToastWeekDeleted weekName) (saveData newData st)))"

text \<open>\<open>`p-${Date.now()}-${name.replace(/\s/g, '').toLowerCase().substring(0, 5)}`\<close>\<close>

definition generateParticipantId :: "nat \<Rightarrow> string \<Rightarrow> string" where
  "generateParticipantId now nm =
     ''p-'' @ nat_to_string now @ ''-'' @ take 5 (toLowerCase (filter (\<lambda>c. \<not> is_space c) nm))"

definition newParticipant :: "nat \<Rightarrow> string \<Rightarrow> Participant" where
  "newParticipant now nm = \<lparr>pid = generateParticipantId now nm, name = nm, paid = False\<rparr>"

text \<open>
  The label of the day. The built-in date is a parameter: \<open>dateObj\<close> gives, for the
  text \<open>newTripDate + 'T12:00:00'\<close>, the results of \<open>getDay()\<close>, \<open>getDate()\<close> and
  \<open>getMonth()\<close>, or \<open>None\<close> for an invalid date, whose three results are NaN. The two
  accented names of the table are spelt with their code units.
\<close>

definition daysPT :: "string list" where
  "daysPT = [''Domingo'', ''Segunda-feira'', ''Ter'' @ [CHR 0xE7] @ ''a-feira'',
             ''Quarta-feira'', ''Quinta-feira'', ''Sexta-feira'',
             ''S'' @ [CHR 0xE1] @ ''bado'']"

definition formattedDate :: "(string \<Rightarrow> (nat \<times> nat \<times> nat) option) \<Rightarrow> string \<Rightarrow> string" where
  "formattedDate dateObj tripDate =
     (case dateObj (tripDate @ ''T12:00:00'') of
        None \<Rightarrow> ''undefined (NaN/NaN)''
      | Some (wd, d, m) \<Rightarrow>
          (if wd < length daysPT then daysPT ! wd else ''undefined'')
          @ '' ('' @ padStart2 (nat_to_string d) @ ''/'' @ padStart2 (nat_to_string (m + 1)) @ '')'')"

definition manualNames :: "string \<Rightarrow> string list" where
  "manualNames input = filter (\<lambda>s. s \<noteq> []) (map trim (split_on CHR 0x0A input))"

definition targetNames :: "(string \<Rightarrow> string \<Rightarrow> int) \<Rightarrow> App \<Rightarrow> string list" where
  "targetNames cmp st =
     sortBy cmp (\<lambda>s. s) (dedupe (selectedExistingNames st @ manualNames (newParticipantInput st)))"

text \<open>The body of \<open>selectedTypes.forEach\<close>: one direction merged into the list of trips.\<close>

definition mergedParticipants ::
    "(string \<Rightarrow> string \<Rightarrow> int) \<Rightarrow> nat \<Rightarrow> string list \<Rightarrow> Trip \<Rightarrow> Participant list" where
  "mergedParticipants cmp now names existingTrip =
     sortBy cmp name
       (map (\<lambda>nm. case find (\<lambda>p. name p = nm) (participants existingTrip) of
                    Some existingPerson \<Rightarrow> existingPerson
                  | None \<Rightarrow> newParticipant now nm) names)"

definition addTripOfType ::
    "(string \<Rightarrow> string \<Rightarrow> int) \<Rightarrow> nat \<Rightarrow> string \<Rightarrow> string list \<Rightarrow> Trip list \<Rightarrow> TripType \<Rightarrow> Trip list" where
  "addTripOfType cmp now label names newTripsList ty =
     (case findIndex (\<lambda>t. day t = label \<and> type t = ty) newTripsList of
        Some existingIndex \<Rightarrow>
          (let existingTrip = newTripsList ! existingIndex
           in newTripsList[existingIndex :=
                existingTrip\<lparr>participants := mergedParticipants cmp now names existingTrip\<rparr>])
      | None \<Rightarrow>
          newTripsList @
            [\<lparr>day = label, time = None, type = ty,
              participants = sortBy cmp name (map (newParticipant now) names)\<rparr>])"

text \<open>
  \<open>handleAddTrip\<close>. The sets \<open>newTripTypes\<close> and \<open>selectedExistingNames\<close> are held as the
  lists of the elements inserted, so that \<open>Array.from\<close> of the set is \<open>dedupe\<close> of the list.
  \<open>now\<close> is the value of \<open>Date.now()\<close> during the call.
\<close>

definition handleAddTrip ::
    "(string \<Rightarrow> (nat \<times> nat \<times> nat) option) \<Rightarrow> (string \<Rightarrow> string \<Rightarrow> int) \<Rightarrow> nat \<Rightarrow> App \<Rightarrow> App option" where
  "handleAddTrip dateObj cmp now st =
     (if newTripDate st = [] then Some (alert ''Selecione a data.'' st)
      else if newTripTypes st = []
        then Some (alert ''Selecione pelo menos um tipo (Ida ou Volta).'' st)
      else
        (let label = formattedDate dateObj (newTripDate st);
             names = targetNames cmp st
         in if names = [] then Some (alert ''Adicione participantes.'' st)
            else
              (case active_trips (data st) of
                 None \<Rightarrow> None
               | Some trips \<Rightarrow>
                   (let selectedTypes = dedupe (newTripTypes st);
                        newTripsList = foldl (addTripOfType cmp now label names) trips selectedTypes;
                        st1 = saveData (AList.update ''active_trips'' (Trips newTripsList) (data st)) st
                    in Some (showToast ToastTripsSaved
                         (st1\<lparr>modalOpen := ModalNone, newParticipantInput := [],
                              selectedExistingNames := [], newTripDate := [],
                              participantSearchTerm := []\<rparr>))))))"

section \<open>Week names (services/dataUtils)\<close>

subsection \<open>The built-in \<open>parseInt\<close> and \<open>String\<close>\<close>

definition is_digit :: "char \<Rightarrow> bool" where
  "is_digit c = (48 \<le> (of_char c :: nat) \<and> (of_char c :: nat) \<le> 57)"

definition digit_val :: "char \<Rightarrow> nat" where
  "digit_val c = of_char c - 48"

definition is_hex :: "char \<Rightarrow> bool" where
  "is_hex c = (let n = of_char c :: nat
               in (48 \<le> n \<and> n \<le> 57) \<or> (65 \<le> n \<and> n \<le> 70) \<or> (97 \<le> n \<and> n \<le> 102))"

definition hex_val :: "char \<Rightarrow> nat" where
  "hex_val c = (let n = of_char c :: nat
                in if n \<le> 57 then n - 48 else if n \<le> 70 then n - 55 else n - 87)"

text \<open>
  \<open>parseInt(s)\<close>: leading white space is skipped, a sign is read, then the longest run
  of digits, hexadecimal after \<open>0x\<close>; \<open>None\<close> is NaN, the result when there is no digit.
  The result is exact here; the built-in rounds integers beyond \<open>2^53\<close>.
\<close>

definition parseInt :: "string \<Rightarrow> int option" where
  "parseInt s =
     (let t = dropWhile is_space s;
          neg = (take 1 t = ''-'');
          u = (if take 1 t = ''-'' \<or> take 1 t = ''+'' then drop 1 t else t);
          hex = (take 2 u = ''0x'' \<or> take 2 u = ''0X'');
          ds = (if hex then takeWhile is_hex (drop 2 u) else takeWhile is_digit u);
          n = (if hex then foldl (\<lambda>a c. 16 * a + hex_val c) 0 ds
               else foldl (\<lambda>a c. 10 * a + digit_val c) 0 ds)
      in if ds = [] then None else Some (if neg then - int n else int n))"

text \<open>\<open>parseInt(parts[i])\<close>: a missing part is undefined, which parses to NaN.\<close>

definition parseIntAt :: "string list \<Rightarrow> nat \<Rightarrow> int option" where
  "parseIntAt parts i = (if i < length parts then parseInt (parts ! i) else None)"

definition int_to_string :: "int \<Rightarrow> string" where
  "int_to_string i =
     (if 0 \<le> i then nat_to_string (nat i) else CHR ''-'' # nat_to_string (nat (- i)))"

subsection \<open>The built-in date\<close>

text \<open>
  A date object holds an instant, and the code reads it only through its fields in
  local time. So a date is modelled by what it shows in local time: the calendar date
  (a year, a month from 0 to 11 and a day of the month, in the proleptic Gregorian
  calendar) and the time within the day in milliseconds; or it is invalid. The
  constructor and \<open>setDate\<close> accept any integers and normalise them: the month carries
  into the year, and the day of the month counts days from the first of the month,
  forwards or backwards. With the local date and time so found they ask the engine for
  an instant.

  What the engine answers depends on the time zone of the system, which is a
  parameter: \<open>zone (date, tod)\<close> is the local date and time of the instant that the
  engine takes for the requested local date and time, and \<open>None\<close> where that instant is
  more than \<open>10^8\<close> days away from 1 January 1970, which makes the date invalid. A local
  time that exists comes back as it is. A local time that the zone skips (an hour at
  the start of daylight saving time, a day dropped from the calendar) comes back
  later than requested.
\<close>

type_synonym ymd = "int \<times> nat \<times> nat"

type_synonym localtime = "ymd \<times> nat"

type_synonym timezone = "localtime \<Rightarrow> localtime option"

datatype jsdate = InvalidDate | Date ymd nat

definition is_leap :: "int \<Rightarrow> bool" where
  "is_leap y = (y mod 4 = 0 \<and> (y mod 100 \<noteq> 0 \<or> y mod 400 = 0))"

definition days_in_month :: "int \<Rightarrow> nat \<Rightarrow> nat" where
  "days_in_month y m =
     (if m = 1 then (if is_leap y then 29 else 28)
      else if m = 3 \<or> m = 5 \<or> m = 8 \<or> m = 10 then 30 else 31)"

fun next_day :: "ymd \<Rightarrow> ymd" where
  "next_day (y, m, d) =
     (if d < days_in_month y m then (y, m, d + 1)
      else if m < 11 then (y, m + 1, 1) else (y + 1, 0, 1))"

fun prev_day :: "ymd \<Rightarrow> ymd" where
  "prev_day (y, m, d) =
     (if 1 < d then (y, m, d - 1)
      else if 0 < m then (y, m - 1, days_in_month y (m - 1)) else (y - 1, 11, 31))"

definition shift_days :: "int \<Rightarrow> ymd \<Rightarrow> ymd" where
  "shift_days k date = (if 0 \<le> k then (next_day ^^ nat k) date else (prev_day ^^ nat (- k)) date)"

text \<open>The calendar date of year \<open>y\<close>, month \<open>m\<close> and day of the month \<open>dt\<close>, any integers.\<close>

definition MakeDay :: "int \<Rightarrow> int \<Rightarrow> int \<Rightarrow> ymd" where
  "MakeDay y m dt = shift_days (dt - 1) (y + m div 12, nat (m mod 12), 1)"

text \<open>
  The language standard counts days from 1 January 1970; \<open>day_number\<close> is that count
  for a calendar date. It is not used by the code modelled here: it serves to check
  that the calendar above, which steps from day to day, is the one of the standard.
\<close>

fun day_number :: "ymd \<Rightarrow> int" where
  "day_number (y, m, d) =
     (let y' = (if m < 2 then y - 1 else y);
          mp = (int m + 10) mod 12
      in 365 * y' + y' div 4 - y' div 100 + y' div 400 + (153 * mp + 2) div 5 + int d - 1 - 719468)"

text \<open>The date object for a requested local date and time.\<close>

definition fromLocal :: "timezone \<Rightarrow> localtime \<Rightarrow> jsdate" where
  "fromLocal zone req = (case zone req of None \<Rightarrow> InvalidDate | Some (date, tod) \<Rightarrow> Date date tod)"

text \<open>\<open>new Date(year, month, day)\<close>: local midnight of that day; \<open>None\<close> is NaN. A year from
  0 to 99 means 1900 to 1999.\<close>

definition new_Date :: "timezone \<Rightarrow> int option \<Rightarrow> int option \<Rightarrow> int option \<Rightarrow> jsdate" where
  "new_Date zone year month dt =
     (case (year, month, dt) of
        (Some y, Some m, Some d) \<Rightarrow>
          fromLocal zone (MakeDay (if 0 \<le> y \<and> y \<le> 99 then 1900 + y else y) m d, 0)
      | _ \<Rightarrow> InvalidDate)"

fun getDate :: "jsdate \<Rightarrow> int option" where
  "getDate InvalidDate = None"
| "getDate (Date (y, m, d) tod) = Some (int d)"

fun getMonth :: "jsdate \<Rightarrow> int option" where
  "getMonth InvalidDate = None"
| "getMonth (Date (y, m, d) tod) = Some (int m)"

fun getFullYear :: "jsdate \<Rightarrow> int option" where
  "getFullYear InvalidDate = None"
| "getFullYear (Date (y, m, d) tod) = Some y"

text \<open>\<open>date.setDate(dt)\<close>: the day of the month is replaced in local time, the year, the
  month and the time within the day are kept, and the result is normalised.\<close>

fun setDate :: "timezone \<Rightarrow> jsdate \<Rightarrow> int option \<Rightarrow> jsdate" where
  "setDate zone (Date (y, m, d) tod) (Some dt) = fromLocal zone (MakeDay y (int m) dt, tod)"
| "setDate zone date dt = InvalidDate"

text \<open>\<open>String(x)\<close> for a number that may be NaN.\<close>

definition String_num :: "int option \<Rightarrow> string" where
  "String_num x = (case x of None \<Rightarrow> ''NaN'' | Some i \<Rightarrow> int_to_string i)"

subsection \<open>\<open>formatDate\<close> and \<open>generateWeekName\<close>\<close>

definition formatDate :: "jsdate \<Rightarrow> string" where
  "formatDate date =
     (let dd = padStart2 (String_num (getDate date));
          mm = padStart2 (String_num (map_option (\<lambda>m. m + 1) (getMonth date)));
          yyyy = String_num (getFullYear date)
      in dd @ ''/'' @ mm @ ''/'' @ yyyy)"

definition generateWeekName :: "timezone \<Rightarrow> string \<Rightarrow> string option" where
  "generateWeekName zone startDateString =
     (if startDateString = [] then None
      else
        (let parts = split_on CHR ''-'' startDateString;
             year = parseIntAt parts 0;
             month = map_option (\<lambda>m. m - 1) (parseIntAt parts 1);
             dy = parseIntAt parts 2;
             startDate = new_Date zone year month dy;
             endDate = setDate zone startDate (map_option (\<lambda>d. d + 4) (getDate startDate))
         in Some (''Semana '' @ formatDate startDate @ '' - '' @ formatDate endDate)))"

text \<open>The value of a date input for a calendar date: \<open>YYYY-MM-DD\<close>, the month counted
  from 1.\<close>

definition padZeros :: "nat \<Rightarrow> string \<Rightarrow> string" where
  "padZeros n s = replicate (n - length s) CHR ''0'' @ s"

definition isoDate :: "nat \<Rightarrow> nat \<Rightarrow> nat \<Rightarrow> string" where
  "isoDate y m d =
     padZeros 4 (nat_to_string y) @ ''-'' @ padZeros 2 (nat_to_string m) @ ''-''
       @ padZeros 2 (nat_to_string d)"

definition valid_date :: "ymd \<Rightarrow> bool" where
  "valid_date date = (case date of (y, m, d) \<Rightarrow> m < 12 \<and> 1 \<le> d \<and> d \<le> days_in_month y m)"

text \<open>
  The format \<open>DD/MM/YYYY\<close> as the specification words it: the day in two digits, the
  month, counted from 1, in two digits, and the year in four digits.
\<close>

definition two_digits :: "nat \<Rightarrow> string" where
  "two_digits n = [digit_char (n div 10), digit_char (n mod 10)]"

definition four_digits :: "nat \<Rightarrow> string" where
  "four_digits n =
     [digit_char (n div 1000), digit_char (n div 100 mod 10), digit_char (n div 10 mod 10),
      digit_char (n mod 10)]"

definition DDMMYYYY :: "ymd \<Rightarrow> string" where
  "DDMMYYYY date =
     (case date of (y, m, d) \<Rightarrow> two_digits d @ ''/'' @ two_digits (Suc m) @ ''/'' @ four_digits (nat y))"

text \<open>
  Two time zones for the examples. In the first every local time exists and is in
  range, as in a zone with a constant offset away from the limits of the range. The
  second is Pacific/Apia around its change of date line, which dropped 30 December 2011
  from the local calendar: a local time asked for on that day comes back on
  31 December.
\<close>

definition constantOffset :: timezone where
  "constantOffset = Some"

definition apia :: timezone where
  "apia req = (if fst req = (2011, 11, 30) then Some ((2011, 11, 31), snd req) else Some req)"

section \<open>The debounced save (services/dataUtils)\<close>

text \<open>
  Time is counted in milliseconds. The state holds what \<open>saveAppData\<close> touches: the
  cached document, the module variable \<open>saveTimeout\<close> (\<open>None\<close> is null), the timers that
  are set and have neither fired nor been cleared, each with its id, the time it is
  due and the document its callback would send, the number of timers set so far, and
  the documents sent to the remote store by \<open>upsert\<close>, oldest first. Timer ids are
  positive, so \<open>if (saveTimeout)\<close> tests for null.
\<close>

record Sync =
  localStorage :: "AppData option"
  saveTimeout :: "nat option"
  timers :: "(nat \<times> nat \<times> AppData) list"
  timerCount :: nat
  remote :: "AppData list"

definition clearTimeout :: "nat \<Rightarrow> Sync \<Rightarrow> Sync" where
  "clearTimeout i s = s\<lparr>timers := filter (\<lambda>tm. fst tm \<noteq> i) (timers s)\<rparr>"

text \<open>\<open>setTimeout(callback, delay)\<close> at time \<open>t\<close>, for a callback that sends \<open>payload\<close>: the new
  id and the new state.\<close>

definition setTimeout :: "nat \<Rightarrow> nat \<Rightarrow> AppData \<Rightarrow> Sync \<Rightarrow> nat \<times> Sync" where
  "setTimeout t delay payload s =
     (let i = Suc (timerCount s)
      in (i, s\<lparr>timers := timers s @ [(i, t + delay, payload)], timerCount := i\<rparr>))"

text \<open>
  \<open>saveAppData(data)\<close> called at time \<open>t\<close>; \<open>stored\<close> tells whether \<open>localStorage.setItem\<close>
  succeeded (its exception is caught).
\<close>

definition saveAppData :: "nat \<Rightarrow> bool \<Rightarrow> AppData \<Rightarrow> Sync \<Rightarrow> Sync" where
  "saveAppData t stored d s =
     (let s1 = (if stored then s\<lparr>localStorage := Some d\<rparr> else s);
          s2 = (case saveTimeout s1 of None \<Rightarrow> s1 | Some i \<Rightarrow> clearTimeout i s1);
          (i, s3) = setTimeout t 1000 d s2
      in s3\<lparr>saveTimeout := Some i\<rparr>)"

text \<open>
  The event loop at time \<open>t\<close>: every timer that is due fires, in the order in which the
  timers were set. The callback of a timer issues the remote write of its document;
  whether the write succeeds only changes what is logged to the console.
\<close>

definition runTimers :: "nat \<Rightarrow> Sync \<Rightarrow> Sync" where
  "runTimers t s =
     s\<lparr>remote := remote s @ map (\<lambda>tm. snd (snd tm)) (filter (\<lambda>tm. fst (snd tm) \<le> t) (timers s)),
       timers := filter (\<lambda>tm. \<not> fst (snd tm) \<le> t) (timers s)\<rparr>"

text \<open>What happens to the module: a call of \<open>saveAppData\<close> at a time, or the event loop
  taking its turn at a time. A timer fires only when the event loop takes its turn,
  which may be later than the time the timer is due.\<close>

datatype event = Save nat bool AppData | Tick nat

fun step :: "Sync \<Rightarrow> event \<Rightarrow> Sync" where
  "step s (Save t stored d) = saveAppData t stored d s"
| "step s (Tick t) = runTimers t s"

definition run :: "event list \<Rightarrow> Sync \<Rightarrow> Sync" where
  "run es s = foldl step s es"

text \<open>
  \<open>quiet ls now es\<close>: the events \<open>es\<close> follow a save made at time \<open>ls\<close>, the clock showing
  \<open>now\<close>; time does not run backwards, and every event comes less than 1000 ms after
  the latest save before it.
\<close>

fun quiet :: "nat \<Rightarrow> nat \<Rightarrow> event list \<Rightarrow> bool" where
  "quiet ls now [] = True"
| "quiet ls now (Save t stored d # es) = (now \<le> t \<and> t < ls + 1000 \<and> quiet t t es)"
| "quiet ls now (Tick t # es) = (now \<le> t \<and> t < ls + 1000 \<and> quiet ls t es)"

text \<open>The time and the document of the last save, given those of the save before \<open>es\<close>.\<close>

fun lastSave :: "nat \<times> AppData \<Rightarrow> event list \<Rightarrow> nat \<times> AppData" where
  "lastSave prev [] = prev"
| "lastSave prev (Save t stored d # es) = lastSave (t, d) es"
| "lastSave prev (Tick t # es) = lastSave prev es"

fun saves :: "event list \<Rightarrow> AppData list" where
  "saves [] = []"
| "saves (Save t stored d # es) = d # saves es"
| "saves (Tick t # es) = saves es"

text \<open>
  The invariant of the module: at most one timer is pending, and it is the one whose
  id \<open>saveTimeout\<close> holds.
\<close>

definition one_pending :: "Sync \<Rightarrow> bool" where
  "one_pending s =
     (timers s = [] \<or> (\<exists>i due d. timers s = [(i, due, d)] \<and> saveTimeout s = Some i))"

definition sync0 :: Sync where
  "sync0 = \<lparr>localStorage = None, saveTimeout = None, timers = [], timerCount = 0, remote = []\<rparr>"

section \<open>Example values\<close>

text \<open>A collation for the examples: the order of the code units.\<close>

fun cmpCodeUnits :: "string \<Rightarrow> string \<Rightarrow> int" where
  "cmpCodeUnits [] [] = 0"
| "cmpCodeUnits [] (y # ys) = - 1"
| "cmpCodeUnits (x # xs) [] = 1"
| "cmpCodeUnits (x # xs) (y # ys) =
     (if (of_char x :: nat) < of_char y then - 1
      else if (of_char y :: nat) < of_char x then 1
      else cmpCodeUnits xs ys)"

text \<open>The built-in date on the one day of the examples: 3 June 2024, a Monday.\<close>

definition dateObj0 :: "string \<Rightarrow> (nat \<times> nat \<times> nat) option" where
  "dateObj0 = [''2024-06-03T12:00:00'' \<mapsto> (1, 3, 5)]"

definition doc1 :: AppData where
  "doc1 = [(''active_trips'',
              Trips [\<lparr>day = ''Segunda-feira (03/06)'', time = None, type = Ida,
                      participants = [\<lparr>pid = ''p-1-ana'', name = ''Ana'', paid = True\<rparr>,
                                      \<lparr>pid = ''p-1-bruno'', name = ''Bruno'', paid = False\<rparr>]\<rparr>]),
           (''currentWeekName'', Str ''Semana 03/06/2024 - 07/06/2024''),
           (''Semana 27/05/2024 - 31/05/2024'', Trips [])]"

definition app1 :: App where
  "app1 = \<lparr>data = doc1, modalOpen = ModalAddTrip, newTripDate = ''2024-06-03'',
           newTripTypes = [Ida], selectedExistingNames = [''Ana''],
           newParticipantInput = ''Carla'', participantSearchTerm = [],
           toastMessage = None, saved = [], alerts = []\<rparr>"

section \<open>Properties of the sanitizer\<close>

lemma fill_obj: "is_object d \<Longrightarrow> fillIfFalsy k x d = Inr (filled k x d)"
  by (cases d) (auto simp: fillIfFalsy_def bind_err_def own_def filled_def)

lemma fill_prim: "\<not> is_object d \<Longrightarrow> fillIfFalsy k x d = Inl TypeError"
  by (cases d) (auto simp: fillIfFalsy_def bind_err_def)

lemma filled_object: "is_object d \<Longrightarrow> is_object (filled k x d)"
  by (cases d) (auto simp: filled_def)

lemma filled_elements: "elements (filled k x d) = elements d"
  by (cases d) (auto simp: filled_def)

lemma filled_own: "is_object d \<Longrightarrow>
  own (filled k x d) j = (if j = k \<and> \<not> truthy (own d k) then x else own d j)"
  by (cases d) (auto simp: filled_def own_def update_conv')

lemma filled_props: "is_object d \<Longrightarrow>
  map_of (props (filled k x d)) j =
    (if j = k \<and> \<not> truthy (own d k) then Some x else map_of (props d) j)"
  by (cases d) (auto simp: filled_def own_def update_conv')

lemma filled_id: "truthy (own d k) \<Longrightarrow> filled k x d = d"
  by (simp add: filled_def)

lemma sanitize_object: "is_object d \<Longrightarrow> sanitizeData P d =
   Inr (filled ''currentWeekName'' (JStr DEFAULT_WEEK_NAME) (filled ''active_trips'' (JArr [] []) d))"
  by (cases d) (auto simp: sanitizeData_def bind_err_def fill_obj filled_object)

lemma sanitize_falsy: "\<not> truthy d \<Longrightarrow> sanitizeData P d = Inr emptyDoc"
  by (simp add: sanitizeData_def)

lemma sanitize_text: "s \<noteq> [] \<Longrightarrow> sanitizeData P (JStr s) =
   (case P s of None \<Rightarrow> Inr emptyDoc
    | Some v \<Rightarrow> if is_object v
        then Inr (filled ''currentWeekName'' (JStr DEFAULT_WEEK_NAME) (filled ''active_trips'' (JArr [] []) v))
        else Inl TypeError)"
  by (auto simp: sanitizeData_def bind_err_def fill_obj fill_prim filled_object split: option.splits)

lemma sanitize_primitive: "truthy d \<Longrightarrow> \<not> is_object d \<Longrightarrow> \<forall>s. d \<noteq> JStr s \<Longrightarrow>
   sanitizeData P d = Inl TypeError"
  by (cases d) (auto simp: sanitizeData_def bind_err_def fill_prim)

lemma sane_filled: "is_object d \<Longrightarrow>
   sane (filled ''currentWeekName'' (JStr DEFAULT_WEEK_NAME) (filled ''active_trips'' (JArr [] []) d))"
  by (simp add: sane_def filled_object filled_own DEFAULT_WEEK_NAME_def)

lemma sane_emptyDoc: "sane emptyDoc"
  by (simp add: sane_def emptyDoc_def own_def DEFAULT_WEEK_NAME_def)

lemma sanitize_result_sane: "sanitizeData P d = Inr r \<Longrightarrow> sane r"
proof (cases "truthy d")
  case False
  assume "sanitizeData P d = Inr r"
  with False show ?thesis by (simp add: sanitize_falsy sane_emptyDoc)
next
  case True
  assume r: "sanitizeData P d = Inr r"
  show ?thesis
  proof (cases "is_object d")
    case True
    with r show ?thesis by (auto simp: sanitize_object sane_filled)
  next
    case False
    show ?thesis
    proof (cases "\<exists>s. d = JStr s")
      case True
      then obtain s where s: "d = JStr s" by blast
      with \<open>truthy d\<close> have "s \<noteq> []" by simp
      with r s show ?thesis
        by (auto simp: sanitize_text sane_filled sane_emptyDoc split: option.splits if_splits)
    next
      case nostr: False
      with r False \<open>truthy d\<close> show ?thesis
        by (simp add: sanitize_primitive)
    qed
  qed
qed

lemma sanitize_sane: "sane r \<Longrightarrow> sanitizeData P r = Inr r"
  by (simp add: sane_def sanitize_object filled_id)

text \<open>
  Claim C5: for every input, \<open>sanitizeData\<close> raises no error to the caller; malformed
  input gives the empty-document default. The code catches the error of \<open>JSON.parse\<close>
  and returns the default for text that does not parse, but it does not look at what
  the text parses to, nor at a value that is given directly and is neither falsy nor
  an object. Such a value reaches the two field checks: reading a field of null
  throws a TypeError, and so does, in strict mode, writing a field of a number, a
  boolean or a string. So the text \<open>null\<close> and the text \<open>5\<close>, both well-formed JSON, the
  number 5 and the value true make \<open>sanitizeData\<close> throw.
\<close>

theorem sanitizeData_raises:
  "sanitizeData [''null'' \<mapsto> JNull] (JStr ''null'') = Inl TypeError
   \<and> sanitizeData [''5'' \<mapsto> JNum 5] (JStr ''5'') = Inl TypeError
   \<and> sanitizeData Map.empty (JNum 5) = Inl TypeError
   \<and> sanitizeData Map.empty (JBool True) = Inl TypeError"
  by (simp add: sanitizeData_def bind_err_def fillIfFalsy_def)

text \<open>
  On every other input the code does what the claim says: it raises no error when its
  input is falsy (null, undefined, false, 0, NaN, the empty text), is text that does
  not parse, or is an object, given directly or as text that parses to one. The
  result is then an object whose \<open>active_trips\<close> and \<open>currentWeekName\<close> are truthy, and it is
  the empty-document default for falsy input and for text that does not parse.
\<close>

lemma sanitizeData_returns:
  assumes "\<not> truthy D \<or> is_object D
           \<or> (\<exists>s. D = JStr s \<and> (P s = None \<or> (\<exists>v. P s = Some v \<and> is_object v)))"
  shows "\<exists>r. sanitizeData P D = Inr r \<and> is_object r
              \<and> truthy (own r ''active_trips'') \<and> truthy (own r ''currentWeekName'')
              \<and> ((\<not> truthy D \<or> (\<exists>s. D = JStr s \<and> P s = None)) \<longrightarrow> r = emptyDoc)"
proof -
  have ok: "\<exists>r. sanitizeData P D = Inr r"
  proof (cases "truthy D")
    case False
    then show ?thesis by (simp add: sanitize_falsy)
  next
    case True
    show ?thesis
    proof (cases "is_object D")
      case True
      then show ?thesis by (simp add: sanitize_object)
    next
      case False
      with assms \<open>truthy D\<close> obtain s where s: "D = JStr s"
        and p: "P s = None \<or> (\<exists>v. P s = Some v \<and> is_object v)" by blast
      from s \<open>truthy D\<close> have "s \<noteq> []" by simp
      with s p show ?thesis by (auto simp: sanitize_text)
    qed
  qed
  then obtain r where r: "sanitizeData P D = Inr r" by blast
  then have "sane r" by (rule sanitize_result_sane)
  moreover have "r = emptyDoc" if "\<not> truthy D \<or> (\<exists>s. D = JStr s \<and> P s = None)"
  proof (cases "truthy D")
    case False
    with r show ?thesis by (simp add: sanitize_falsy)
  next
    case True
    with that obtain s where s: "D = JStr s" "P s = None" by blast
    with True have "s \<noteq> []" by simp
    with r s show ?thesis by (simp add: sanitize_text)
  qed
  ultimately show ?thesis using r by (auto simp: sane_def)
qed

text \<open>
  Claim C6: applying \<open>sanitizeData\<close> to its own result gives that result again. An input
  on which the first application throws makes the composition throw the same error.
\<close>

theorem sanitizeData_idempotent:
  "bind_err (sanitizeData P D) (sanitizeData P) = sanitizeData P D"
proof (cases "sanitizeData P D")
  case (Inl e)
  then show ?thesis by (simp add: bind_err_def)
next
  case (Inr r)
  then have "sanitizeData P r = Inr r"
    by (intro sanitize_sane sanitize_result_sane)
  with Inr show ?thesis by (simp add: bind_err_def)
qed

text \<open>
  Claim C10, as stated: on an object, \<open>sanitizeData\<close> never alters \<open>active_trips\<close> or
  \<open>currentWeekName\<close> when they are present. It fails on the code: a \<open>currentWeekName\<close> that
  is present and is the empty string is replaced by the sentinel.
\<close>

theorem sanitizeData_present_counterexample:
  "sanitizeData Map.empty
     (JObj [(''active_trips'', JArr [] []), (''currentWeekName'', JStr '''')])
   = Inr (JObj [(''active_trips'', JArr [] []), (''currentWeekName'', JStr ''Semana Atual'')])"
  by (simp add: sanitizeData_def bind_err_def fillIfFalsy_def DEFAULT_WEEK_NAME_def)

text \<open>
  Claim C10, amended: on an object (an array included), \<open>sanitizeData\<close> returns an
  object with the same elements in which every property other than \<open>active_trips\<close> and
  \<open>currentWeekName\<close> is as before; \<open>active_trips\<close> is kept when it is present and truthy and
  is the empty array otherwise (missing, or null, false, 0, NaN, the empty string);
  \<open>currentWeekName\<close> is kept when it is present and truthy and is the sentinel otherwise.
\<close>

theorem sanitizeData_frame:
  assumes "is_object D"
  shows "\<exists>D'. sanitizeData P D = Inr D' \<and> is_object D' \<and> elements D' = elements D
     \<and> (\<forall>k. k \<noteq> ''active_trips'' \<and> k \<noteq> ''currentWeekName''
            \<longrightarrow> map_of (props D') k = map_of (props D) k)
     \<and> map_of (props D') ''active_trips'' =
         (if truthy (own D ''active_trips'') then map_of (props D) ''active_trips''
          else Some (JArr [] []))
     \<and> map_of (props D') ''currentWeekName'' =
         (if truthy (own D ''currentWeekName'') then map_of (props D) ''currentWeekName''
          else Some (JStr DEFAULT_WEEK_NAME))"
  using assms
  by (simp add: sanitize_object filled_object filled_elements filled_props filled_own)

theorem sanitizeData_frame_witness:
  "is_object (JObj [(''Semana 1'', JArr [JNum 1] []), (''currentWeekName'', JStr '''')])
   \<and> sanitizeData Map.empty
       (JObj [(''Semana 1'', JArr [JNum 1] []), (''currentWeekName'', JStr '''')])
     = Inr (JObj [(''Semana 1'', JArr [JNum 1] []), (''currentWeekName'', JStr ''Semana Atual''),
                  (''active_trips'', JArr [] [])])"
  using sanitizeData_frame
    [of "JObj [(''Semana 1'', JArr [JNum 1] []), (''currentWeekName'', JStr '''')]" Map.empty]
  by (simp add: sanitizeData_def bind_err_def fillIfFalsy_def DEFAULT_WEEK_NAME_def)

section \<open>Properties of the week archive\<close>

lemma last_archiveSuffix: "last (nm @ archiveSuffix today now) = CHR '')''"
  by (simp add: archiveSuffix_def)

lemma suffixed_not_reserved:
  "nm @ archiveSuffix today now \<noteq> ''active_trips''"
  "nm @ archiveSuffix today now \<noteq> ''currentWeekName''"
proof -
  have "last ''active_trips'' \<noteq> CHR '')''" "last ''currentWeekName'' \<noteq> CHR '')''" by simp_all
  then show "nm @ archiveSuffix today now \<noteq> ''active_trips''"
    "nm @ archiveSuffix today now \<noteq> ''currentWeekName''"
    using last_archiveSuffix [of nm today now] by metis+
qed

lemma active_trips_Some: "active_trips d = Some trips \<longleftrightarrow> map_of d ''active_trips'' = Some (Trips trips)"
  by (auto simp: active_trips_def split: option.splits docval.splits)

lemma currentWeekName_Some: "currentWeekName d = Some nm \<longleftrightarrow> map_of d ''currentWeekName'' = Some (Str nm)"
  by (auto simp: currentWeekName_def split: option.splits docval.splits)

lemma archiveName_not_reserved:
  assumes "active_trips d = Some trips" "currentWeekName d = Some nm"
  shows "archiveName today now d nm \<noteq> ''active_trips''"
    and "archiveName today now d nm \<noteq> ''currentWeekName''"
proof -
  have t1: "truthyProp d ''active_trips''"
    using assms(1) by (simp add: active_trips_Some truthyProp_def)
  have t2: "nm = ''currentWeekName'' \<Longrightarrow> truthyProp d nm"
    using assms(2) by (simp add: currentWeekName_Some truthyProp_def)
  show "archiveName today now d nm \<noteq> ''active_trips''"
    using t1 suffixed_not_reserved(1) by (auto simp: archiveName_def)
  show "archiveName today now d nm \<noteq> ''currentWeekName''"
    using t2 suffixed_not_reserved(2) by (auto simp: archiveName_def)
qed

lemma autoArchiveCurrent_noop:
  assumes "active_trips d = Some trips" "currentWeekName d = Some nm"
    and "trips = [] \<and> (nm = DEFAULT_WEEK_NAME \<or> truthyProp d nm)"
  shows "autoArchiveCurrent today now d = Some (None, d)"
  using assms by (auto simp: autoArchiveCurrent_def Let_def)

lemma autoArchiveCurrent_rotates:
  assumes "active_trips d = Some trips" "currentWeekName d = Some nm"
    and "\<not> (trips = [] \<and> (nm = DEFAULT_WEEK_NAME \<or> truthyProp d nm))"
  shows "autoArchiveCurrent today now d =
     Some (Some (archiveName today now d nm),
           AList.update ''currentWeekName'' (Str DEFAULT_WEEK_NAME)
             (AList.update ''active_trips'' (Trips [])
                (AList.update (archiveName today now d nm) (Trips trips) d)))"
  using assms by (auto simp: autoArchiveCurrent_def Let_def)

text \<open>
  Claim C3, as stated: rotation returns no archive name and leaves the document
  unchanged exactly when \<open>active_trips\<close> is empty and \<open>currentWeekName\<close> is the sentinel or
  the key of an existing archive slot. It fails on the code: the test is whether the
  property of the document named by \<open>currentWeekName\<close> is truthy, and the two fields are
  properties too. A document with no trips and no archive slot whose week is named
  \<open>active_trips\<close> is left as it is.
\<close>

theorem autoArchiveCurrent_reserved_name_counterexample:
  "autoArchiveCurrent ''02/11/2026'' 1793620800123
      [(''active_trips'', Trips []), (''currentWeekName'', Str ''active_trips'')]
     = Some (None, [(''active_trips'', Trips []), (''currentWeekName'', Str ''active_trips'')])
   \<and> ''active_trips'' \<noteq> DEFAULT_WEEK_NAME
   \<and> archiveSlots [(''active_trips'', Trips []), (''currentWeekName'', Str ''active_trips'')] = []"
  by (simp add: autoArchiveCurrent_def active_trips_def currentWeekName_def truthyProp_def
        DEFAULT_WEEK_NAME_def archiveSlots_def)

text \<open>
  Claim C3, amended: for a document of the declared type, rotation returns no archive
  name and leaves the document unchanged exactly when \<open>active_trips\<close> is empty and
  \<open>currentWeekName\<close> is the sentinel or names a truthy property of the document (an
  archive slot, one of the two fields, or a property inherited from
  \<open>Object.prototype\<close>). In every other case it stores the trips under the returned key,
  empties \<open>active_trips\<close>, resets \<open>currentWeekName\<close> to the sentinel and leaves every other
  property as it was.
\<close>

theorem autoArchiveCurrent_cases:
  assumes "active_trips d = Some trips" and "currentWeekName d = Some nm"
  shows "(trips = [] \<and> (nm = DEFAULT_WEEK_NAME \<or> truthyProp d nm)
            \<longrightarrow> autoArchiveCurrent today now d = Some (None, d))
       \<and> (\<not> (trips = [] \<and> (nm = DEFAULT_WEEK_NAME \<or> truthyProp d nm))
            \<longrightarrow> (\<exists>key d'. autoArchiveCurrent today now d = Some (Some key, d')
                   \<and> map_of d' key = Some (Trips trips)
                   \<and> active_trips d' = Some []
                   \<and> currentWeekName d' = Some DEFAULT_WEEK_NAME
                   \<and> (\<forall>k. k \<noteq> key \<and> k \<noteq> ''active_trips'' \<and> k \<noteq> ''currentWeekName''
                          \<longrightarrow> map_of d' k = map_of d k)))"
proof (intro conjI impI)
  assume "trips = [] \<and> (nm = DEFAULT_WEEK_NAME \<or> truthyProp d nm)"
  with assms show "autoArchiveCurrent today now d = Some (None, d)"
    by (rule autoArchiveCurrent_noop)
next
  assume r: "\<not> (trips = [] \<and> (nm = DEFAULT_WEEK_NAME \<or> truthyProp d nm))"
  let ?key = "archiveName today now d nm"
  let ?d' = "AList.update ''currentWeekName'' (Str DEFAULT_WEEK_NAME)
             (AList.update ''active_trips'' (Trips [])
                (AList.update ?key (Trips trips) d))"
  have run: "autoArchiveCurrent today now d = Some (Some ?key, ?d')"
    using assms r by (rule autoArchiveCurrent_rotates)
  have nr: "?key \<noteq> ''active_trips''" "?key \<noteq> ''currentWeekName''"
    using assms by (rule archiveName_not_reserved)+
  have "map_of ?d' ?key = Some (Trips trips)"
    using nr by (simp add: update_conv')
  moreover have "active_trips ?d' = Some []"
    by (simp add: active_trips_Some update_conv')
  moreover have "currentWeekName ?d' = Some DEFAULT_WEEK_NAME"
    by (simp add: currentWeekName_Some update_conv')
  moreover have "\<forall>k. k \<noteq> ?key \<and> k \<noteq> ''active_trips'' \<and> k \<noteq> ''currentWeekName''
                          \<longrightarrow> map_of ?d' k = map_of d k"
    by (simp add: update_conv')
  ultimately show "\<exists>key d'. autoArchiveCurrent today now d = Some (Some key, d')
                   \<and> map_of d' key = Some (Trips trips)
                   \<and> active_trips d' = Some []
                   \<and> currentWeekName d' = Some DEFAULT_WEEK_NAME
                   \<and> (\<forall>k. k \<noteq> key \<and> k \<noteq> ''active_trips'' \<and> k \<noteq> ''currentWeekName''
                          \<longrightarrow> map_of d' k = map_of d k)"
    using run by blast
qed

theorem autoArchiveCurrent_cases_witness:
  "active_trips [(''active_trips'', Trips []), (''currentWeekName'', Str ''Semana 03/06/2024 - 07/06/2024''),
                 (''Semana 03/06/2024 - 07/06/2024'', Trips [])] = Some []
   \<and> autoArchiveCurrent ''02/11/2026'' 1793620800123
        [(''active_trips'', Trips []), (''currentWeekName'', Str ''Semana 03/06/2024 - 07/06/2024''),
         (''Semana 03/06/2024 - 07/06/2024'', Trips [])]
      = Some (None, [(''active_trips'', Trips []), (''currentWeekName'', Str ''Semana 03/06/2024 - 07/06/2024''),
                     (''Semana 03/06/2024 - 07/06/2024'', Trips [])])
   \<and> (\<exists>key d'. autoArchiveCurrent ''02/11/2026'' 1793620800123
        [(''active_trips'', Trips []), (''currentWeekName'', Str ''Semana 03/06/2024 - 07/06/2024'')]
          = Some (Some key, d') \<and> map_of d' key = Some (Trips []))"
  using autoArchiveCurrent_cases [of
          "[(''active_trips'', Trips []), (''currentWeekName'', Str ''Semana 03/06/2024 - 07/06/2024''),
            (''Semana 03/06/2024 - 07/06/2024'', Trips [])]" "[]" "''Semana 03/06/2024 - 07/06/2024''"
          "''02/11/2026''" 1793620800123]
        autoArchiveCurrent_cases [of
          "[(''active_trips'', Trips []), (''currentWeekName'', Str ''Semana 03/06/2024 - 07/06/2024'')]"
          "[]" "''Semana 03/06/2024 - 07/06/2024''" "''02/11/2026''" 1793620800123]
  by (auto simp: active_trips_def currentWeekName_def truthyProp_def DEFAULT_WEEK_NAME_def
        Object_prototype_keys_def)

text \<open>
  Claim C4: rotation never overwrites an existing archive slot, and a synthesized key
  differs from every existing slot key. The code does not check the synthesized key
  against the document. Here the week is the sentinel, an earlier rotation of the same
  day left a slot whose key ends in the ticker 123, and the clock shows the same day
  and a time whose last three digits are 123 again: the slot of Ana's trip is replaced
  by Bruno's.
\<close>

theorem autoArchiveCurrent_overwrites_slot:
  "autoArchiveCurrent ''02/11/2026'' 1793620800123
     [(''active_trips'',
         Trips [\<lparr>day = ''Segunda-feira (02/11)'', time = None, type = Volta,
                 participants = [\<lparr>pid = ''p-1793570000000-bruno'', name = ''Bruno'', paid = False\<rparr>]\<rparr>]),
      (''currentWeekName'', Str ''Semana Atual''),
      (''Semana Atual (Arq. 02/11/2026-123)'',
         Trips [\<lparr>day = ''Segunda-feira (02/11)'', time = None, type = Ida,
                 participants = [\<lparr>pid = ''p-1793560000000-ana'', name = ''Ana'', paid = True\<rparr>]\<rparr>])]
   = Some (Some ''Semana Atual (Arq. 02/11/2026-123)'',
     [(''active_trips'', Trips []),
      (''currentWeekName'', Str ''Semana Atual''),
      (''Semana Atual (Arq. 02/11/2026-123)'',
         Trips [\<lparr>day = ''Segunda-feira (02/11)'', time = None, type = Volta,
                 participants = [\<lparr>pid = ''p-1793570000000-bruno'', name = ''Bruno'', paid = False\<rparr>]\<rparr>])])"
  by (simp add: autoArchiveCurrent_def active_trips_def currentWeekName_def truthyProp_def
        DEFAULT_WEEK_NAME_def archiveName_def archiveSuffix_def nat_to_string.simps
        digit_char_def Let_def)

text \<open>Where the key is not yet a property of the document, nothing is lost: every
  property the document had is still there.\<close>

lemma autoArchiveCurrent_keeps_slots:
  assumes "autoArchiveCurrent today now d = Some (Some key, d')" and "map_of d key = None"
    and "k \<noteq> ''active_trips''" and "k \<noteq> ''currentWeekName''" and "map_of d k = Some v"
  shows "map_of d' k = Some v"
proof -
  from assms(5,2) have "k \<noteq> key" by auto
  with assms show ?thesis
    by (auto simp: autoArchiveCurrent_def Let_def update_conv' split: option.splits if_splits)
qed

section \<open>Properties of deleting a week\<close>

lemma archiveSlots_update_reserved:
  "k = ''active_trips'' \<or> k = ''currentWeekName'' \<Longrightarrow> archiveSlots (AList.update k v d) = archiveSlots d"
  unfolding archiveSlots_def by (induction d) auto

lemma delete_as_filter: "AList.delete w d = filter (\<lambda>kv. fst kv \<noteq> w) d"
  by (induction d) (auto simp: AList.delete_eq)

lemma handleDeleteWeek_data:
  "data (handleDeleteWeek True w st) =
     (if map_of (data st) ''currentWeekName'' = Some (Str w)
      then AList.update ''currentWeekName'' (Str DEFAULT_WEEK_NAME)
             (AList.update ''active_trips'' (Trips []) (data st))
      else AList.delete w (data st))"
  by (simp add: handleDeleteWeek_def saveData_def showToast_def Let_def)

lemma handleDeleteWeek_saved:
  "saved (handleDeleteWeek True w st) = saved st @ [data (handleDeleteWeek True w st)]"
  by (simp add: handleDeleteWeek_def saveData_def showToast_def Let_def)

text \<open>
  Claim C9: once the user has confirmed, deleting the week whose name is
  \<open>currentWeekName\<close> sets \<open>currentWeekName\<close> to the sentinel and \<open>active_trips\<close> to empty and
  keeps the archive slots as they are, keys, contents and order; deleting any other
  name removes the property of that name and nothing else. Either way the new
  document is the one saved.
\<close>

theorem handleDeleteWeek_frame:
  "(map_of (data st) ''currentWeekName'' = Some (Str w) \<longrightarrow>
      map_of (data (handleDeleteWeek True w st)) ''currentWeekName'' = Some (Str DEFAULT_WEEK_NAME)
    \<and> map_of (data (handleDeleteWeek True w st)) ''active_trips'' = Some (Trips [])
    \<and> archiveSlots (data (handleDeleteWeek True w st)) = archiveSlots (data st))
   \<and> (map_of (data st) ''currentWeekName'' \<noteq> Some (Str w) \<longrightarrow>
      data (handleDeleteWeek True w st) = filter (\<lambda>kv. fst kv \<noteq> w) (data st)
    \<and> (\<forall>k. map_of (data (handleDeleteWeek True w st)) k
             = (if k = w then None else map_of (data st) k)))
   \<and> saved (handleDeleteWeek True w st) = saved st @ [data (handleDeleteWeek True w st)]"
proof (intro conjI impI allI)
  assume a: "map_of (data st) ''currentWeekName'' = Some (Str w)"
  then show "map_of (data (handleDeleteWeek True w st)) ''currentWeekName'' = Some (Str DEFAULT_WEEK_NAME)"
    by (simp add: handleDeleteWeek_data update_conv')
  from a show "map_of (data (handleDeleteWeek True w st)) ''active_trips'' = Some (Trips [])"
    by (simp add: handleDeleteWeek_data update_conv')
  from a show "archiveSlots (data (handleDeleteWeek True w st)) = archiveSlots (data st)"
    by (simp add: handleDeleteWeek_data archiveSlots_update_reserved)
next
  assume "map_of (data st) ''currentWeekName'' \<noteq> Some (Str w)"
  then show "data (handleDeleteWeek True w st) = filter (\<lambda>kv. fst kv \<noteq> w) (data st)"
    by (simp add: handleDeleteWeek_data delete_as_filter)
next
  fix k
  assume "map_of (data st) ''currentWeekName'' \<noteq> Some (Str w)"
  then show "map_of (data (handleDeleteWeek True w st)) k = (if k = w then None else map_of (data st) k)"
    by (simp add: handleDeleteWeek_data delete_conv')
next
  show "saved (handleDeleteWeek True w st) = saved st @ [data (handleDeleteWeek True w st)]"
    by (rule handleDeleteWeek_saved)
qed

theorem handleDeleteWeek_frame_witness:
  "map_of (data app1) ''currentWeekName'' = Some (Str ''Semana 03/06/2024 - 07/06/2024'')
   \<and> data (handleDeleteWeek True ''Semana 03/06/2024 - 07/06/2024'' app1) =
       [(''active_trips'', Trips []), (''currentWeekName'', Str ''Semana Atual''),
        (''Semana 27/05/2024 - 31/05/2024'', Trips [])]
   \<and> map_of (data app1) ''currentWeekName'' \<noteq> Some (Str ''Semana 27/05/2024 - 31/05/2024'')
   \<and> data (handleDeleteWeek True ''Semana 27/05/2024 - 31/05/2024'' app1) = take 2 doc1"
  using handleDeleteWeek_frame [of app1 "''Semana 03/06/2024 - 07/06/2024''"]
        handleDeleteWeek_frame [of app1 "''Semana 27/05/2024 - 31/05/2024''"]
  by (simp add: app1_def doc1_def handleDeleteWeek_def saveData_def showToast_def
        DEFAULT_WEEK_NAME_def Let_def)

lemma handleDeleteWeek_not_confirmed: "handleDeleteWeek False w st = st"
  by (simp add: handleDeleteWeek_def)

section \<open>Properties of adding a trip\<close>

subsection \<open>Sorting, deduplication, search\<close>

lemma set_insertBy: "set (insertBy cmp key x ys) = insert x (set ys)"
  by (induction ys) auto

lemma set_sortBy: "set (sortBy cmp key xs) = set xs"
  by (induction xs) (simp_all add: sortBy_def set_insertBy)

lemma distinct_map_insertBy:
  "distinct (map key (insertBy cmp key x ys)) \<longleftrightarrow> key x \<notin> key ` set ys \<and> distinct (map key ys)"
  by (induction ys) (auto simp: set_insertBy)

lemma distinct_map_sortBy: "distinct (map key (sortBy cmp key xs)) \<longleftrightarrow> distinct (map key xs)"
proof (induction xs)
  case Nil
  then show ?case by (simp add: sortBy_def)
next
  case (Cons x xs)
  have "sortBy cmp key (x # xs) = insertBy cmp key x (sortBy cmp key xs)"
    by (simp add: sortBy_def)
  with Cons show ?case
    by (simp add: distinct_map_insertBy set_sortBy)
qed

lemma sortBy_Nil_iff: "sortBy cmp key xs = [] \<longleftrightarrow> xs = []"
  using set_sortBy [of cmp key xs] by (metis set_empty)

lemma set_dedupe: "set (dedupe xs) = set xs"
  by (induction xs rule: dedupe.induct) auto

lemma distinct_dedupe: "distinct (dedupe xs)"
  by (induction xs rule: dedupe.induct) (auto simp: set_dedupe)

lemma findIndex_Some: "findIndex P xs = Some i \<Longrightarrow> i < length xs \<and> P (xs ! i)"
  by (induction xs arbitrary: i) (auto split: if_splits)

lemma findIndex_map: "findIndex P xs = findIndex (\<lambda>b. b) (map P xs)"
  by (induction xs) auto

lemma findIndex_append: "findIndex P xs = Some i \<Longrightarrow> findIndex P (xs @ ys) = Some i"
  by (induction xs arbitrary: i) (auto split: if_splits)

lemma findIndex_update_same:
  assumes "j < length xs" and "P t = P (xs ! j)"
  shows "findIndex P (xs[j := t]) = findIndex P xs"
proof -
  have "map P (xs[j := t]) = map P xs"
    using assms by (simp add: map_update list_update_same_conv)
  then show ?thesis
    by (metis findIndex_map)
qed

subsection \<open>One direction\<close>

lemma addTripOfType_found:
  assumes "findIndex (\<lambda>t. day t = label \<and> type t = ty) xs = Some i"
  shows "addTripOfType cmp now label names xs ty =
           xs[i := (xs ! i)\<lparr>participants := mergedParticipants cmp now names (xs ! i)\<rparr>]"
  using assms by (simp add: addTripOfType_def Let_def)

lemma addTripOfType_same:
  assumes "findIndex (\<lambda>t. day t = label \<and> type t = ty) xs = Some i"
  shows "findIndex (\<lambda>t. day t = label \<and> type t = ty) (addTripOfType cmp now label names xs ty) = Some i"
    and "addTripOfType cmp now label names xs ty ! i =
           (xs ! i)\<lparr>participants := mergedParticipants cmp now names (xs ! i)\<rparr>"
proof -
  from assms have i: "i < length xs" by (simp add: findIndex_Some)
  show "findIndex (\<lambda>t. day t = label \<and> type t = ty) (addTripOfType cmp now label names xs ty) = Some i"
    using assms i by (simp add: addTripOfType_found findIndex_update_same)
  show "addTripOfType cmp now label names xs ty ! i =
           (xs ! i)\<lparr>participants := mergedParticipants cmp now names (xs ! i)\<rparr>"
    using assms i by (simp add: addTripOfType_found)
qed

lemma addTripOfType_other:
  assumes "findIndex (\<lambda>t. day t = label \<and> type t = ty) xs = Some i" and "ty' \<noteq> ty"
  shows "findIndex (\<lambda>t. day t = label \<and> type t = ty) (addTripOfType cmp now label names xs ty') = Some i"
    and "addTripOfType cmp now label names xs ty' ! i = xs ! i"
proof -
  from assms(1) have i: "i < length xs" "type (xs ! i) = ty"
    using findIndex_Some [OF assms(1)] by simp_all
  show "findIndex (\<lambda>t. day t = label \<and> type t = ty) (addTripOfType cmp now label names xs ty') = Some i"
  proof (cases "findIndex (\<lambda>t. day t = label \<and> type t = ty') xs")
    case None
    then show ?thesis using assms(1) by (simp add: addTripOfType_def findIndex_append)
  next
    case (Some j)
    then have "j < length xs" by (simp add: findIndex_Some)
    then show ?thesis using assms(1) Some
      by (simp add: addTripOfType_def Let_def findIndex_update_same)
  qed
  show "addTripOfType cmp now label names xs ty' ! i = xs ! i"
  proof (cases "findIndex (\<lambda>t. day t = label \<and> type t = ty') xs")
    case None
    then show ?thesis using i by (simp add: addTripOfType_def nth_append)
  next
    case (Some j)
    then have "type (xs ! j) = ty'" using findIndex_Some [OF Some] by simp
    with i assms(2) have "j \<noteq> i" by auto
    then show ?thesis using Some by (simp add: addTripOfType_def Let_def)
  qed
qed

lemma foldl_addTripOfType_others:
  assumes "findIndex (\<lambda>t. day t = label \<and> type t = ty) xs = Some i" and "ty \<notin> set tys"
  shows "findIndex (\<lambda>t. day t = label \<and> type t = ty)
           (foldl (addTripOfType cmp now label names) xs tys) = Some i
         \<and> foldl (addTripOfType cmp now label names) xs tys ! i = xs ! i"
  using assms
proof (induction tys arbitrary: xs)
  case Nil
  then show ?case by simp
next
  case (Cons a tys)
  from Cons.prems have a: "a \<noteq> ty" and rest: "ty \<notin> set tys" by auto
  note step = addTripOfType_other [OF Cons.prems(1) a, of cmp now names]
  from Cons.IH [OF step(1) rest] step(2) show ?case by simp
qed

lemma foldl_addTripOfType:
  assumes "findIndex (\<lambda>t. day t = label \<and> type t = ty) xs = Some i"
    and "ty \<in> set tys" and "distinct tys"
  shows "findIndex (\<lambda>t. day t = label \<and> type t = ty)
           (foldl (addTripOfType cmp now label names) xs tys) = Some i
         \<and> foldl (addTripOfType cmp now label names) xs tys ! i =
             (xs ! i)\<lparr>participants := mergedParticipants cmp now names (xs ! i)\<rparr>"
  using assms
proof (induction tys arbitrary: xs)
  case Nil
  then show ?case by simp
next
  case (Cons a tys)
  show ?case
  proof (cases "a = ty")
    case True
    with Cons.prems have rest: "ty \<notin> set tys" by auto
    note step = addTripOfType_same [OF Cons.prems(1), of cmp now names]
    from foldl_addTripOfType_others [OF step(1) rest] step(2) True show ?thesis by simp
  next
    case False
    with Cons.prems have rest: "ty \<in> set tys" "distinct tys" by auto
    from False have a: "a \<noteq> ty" by simp
    note step = addTripOfType_other [OF Cons.prems(1) a, of cmp now names]
    from Cons.IH [OF step(1) rest] step(2) show ?thesis by simp
  qed
qed

subsection \<open>The merged participants\<close>

lemma name_resolved:
  "name (case find (\<lambda>p. name p = nm) ps of Some existingPerson \<Rightarrow> existingPerson
         | None \<Rightarrow> newParticipant now nm) = nm"
  by (auto simp: newParticipant_def find_Some_iff split: option.splits)

lemma names_mergedParticipants:
  "set (map name (mergedParticipants cmp now names t)) = set names"
proof -
  have "map name (map (\<lambda>nm. case find (\<lambda>p. name p = nm) (participants t) of
          Some existingPerson \<Rightarrow> existingPerson | None \<Rightarrow> newParticipant now nm) names) = names"
    by (induction names) (simp_all add: name_resolved)
  then show ?thesis
    unfolding mergedParticipants_def set_map set_sortBy by (metis set_map)
qed

lemma distinct_mergedParticipants:
  assumes "distinct names"
  shows "distinct (map name (mergedParticipants cmp now names t))"
proof -
  have "map name (map (\<lambda>nm. case find (\<lambda>p. name p = nm) (participants t) of
          Some existingPerson \<Rightarrow> existingPerson | None \<Rightarrow> newParticipant now nm) names) = names"
    by (induction names) (simp_all add: name_resolved)
  with assms show ?thesis
    unfolding mergedParticipants_def distinct_map_sortBy by simp
qed

lemma kept_mergedParticipants:
  assumes "nm \<in> set names" and "find (\<lambda>p. name p = nm) (participants t) = Some p"
  shows "p \<in> set (mergedParticipants cmp now names t)"
  unfolding mergedParticipants_def set_sortBy using assms by force

lemma fresh_mergedParticipants:
  assumes "nm \<in> set names" and "nm \<notin> name ` set (participants t)"
  shows "newParticipant now nm \<in> set (mergedParticipants cmp now names t)"
proof -
  from assms(2) have "find (\<lambda>p. name p = nm) (participants t) = None"
    by (auto simp: find_None_iff)
  with assms(1) show ?thesis
    unfolding mergedParticipants_def set_sortBy by force
qed

lemma origin_mergedParticipants:
  assumes "q \<in> set (mergedParticipants cmp now names t)"
  shows "find (\<lambda>p. name p = name q) (participants t) = Some q
         \<or> (name q \<notin> name ` set (participants t) \<and> q = newParticipant now (name q))"
proof -
  from assms obtain nm where nm: "nm \<in> set names"
    and q: "q = (case find (\<lambda>p. name p = nm) (participants t) of
                  Some existingPerson \<Rightarrow> existingPerson | None \<Rightarrow> newParticipant now nm)"
    unfolding mergedParticipants_def set_sortBy by auto
  have "name q = nm" unfolding q by (rule name_resolved)
  with q show ?thesis
    by (cases "find (\<lambda>p. name p = nm) (participants t)") (auto simp: find_None_iff)
qed

subsection \<open>The handler\<close>

lemma distinct_targetNames: "distinct (targetNames cmp st)"
  using distinct_map_sortBy [of "\<lambda>s. s" cmp] by (simp add: targetNames_def distinct_dedupe)

lemma handleAddTrip_saves:
  assumes "newTripDate st \<noteq> []" and "newTripTypes st \<noteq> []" and "targetNames cmp st \<noteq> []"
    and "active_trips (data st) = Some trips"
  shows "\<exists>st'. handleAddTrip dateObj cmp now st = Some st'
     \<and> data st' = AList.update ''active_trips''
          (Trips (foldl (addTripOfType cmp now (formattedDate dateObj (newTripDate st))
                    (targetNames cmp st)) trips (dedupe (newTripTypes st)))) (data st)
     \<and> saved st' = saved st @ [data st']"
  using assms by (simp add: handleAddTrip_def Let_def saveData_def showToast_def)

text \<open>
  Claim C8: when the target name set of an add-trip request is empty, the handler only
  raises an alert: the document, the form and the log of saved documents are as
  before.
\<close>

theorem handleAddTrip_rejects_empty:
  assumes "targetNames cmp st = []"
  shows "\<exists>msg. handleAddTrip dateObj cmp now st = Some (st\<lparr>alerts := alerts st @ [msg]\<rparr>)"
proof -
  have "handleAddTrip dateObj cmp now st =
          Some (st\<lparr>alerts := alerts st @
            [if newTripDate st = [] then ''Selecione a data.''
             else if newTripTypes st = [] then ''Selecione pelo menos um tipo (Ida ou Volta).''
             else ''Adicione participantes.'']\<rparr>)"
    using assms by (simp add: handleAddTrip_def Let_def alert_def)
  then show ?thesis by blast
qed

theorem handleAddTrip_rejects_empty_witness:
  "targetNames cmpCodeUnits (app1\<lparr>selectedExistingNames := [], newParticipantInput := ''  '' @ [CHR 0x0A] @ '' ''\<rparr>) = []
   \<and> handleAddTrip dateObj0 cmpCodeUnits 1717412400000
        (app1\<lparr>selectedExistingNames := [], newParticipantInput := ''  '' @ [CHR 0x0A] @ '' ''\<rparr>)
     = Some (app1\<lparr>selectedExistingNames := [], newParticipantInput := ''  '' @ [CHR 0x0A] @ '' '',
                  alerts := [''Adicione participantes.'']\<rparr>)"
  using handleAddTrip_rejects_empty
    [of cmpCodeUnits "app1\<lparr>selectedExistingNames := [], newParticipantInput := ''  '' @ [CHR 0x0A] @ '' ''\<rparr>"
        dateObj0 1717412400000]
  by (simp add: handleAddTrip_def Let_def alert_def targetNames_def manualNames_def trim_def
        is_space_def sortBy_def app1_def)

text \<open>
  Claim C1: when the form has a date and the document already has a trip of the given
  day and direction, and the target name set is not empty, the handler saves a
  document in which that trip, at its place and with its day, time and direction,
  has these participants: their names are exactly the target names, each once; the
  first participant of the old trip with a target name is there as it was, with its
  id and its paid flag; a target name that no participant of the old trip had has a
  new participant, not paid; and every participant is one of these two kinds, so
  that a name of the old trip that is not a target name is gone.
\<close>

theorem handleAddTrip_merges:
  assumes "newTripDate st \<noteq> []" and "ty \<in> set (newTripTypes st)"
    and "targetNames cmp st \<noteq> []"
    and "active_trips (data st) = Some trips"
    and "findIndex (\<lambda>t. day t = formattedDate dateObj (newTripDate st) \<and> type t = ty) trips = Some i"
  shows "\<exists>st' trips'. handleAddTrip dateObj cmp now st = Some st'
     \<and> saved st' = saved st @ [data st']
     \<and> active_trips (data st') = Some trips'
     \<and> findIndex (\<lambda>t. day t = formattedDate dateObj (newTripDate st) \<and> type t = ty) trips' = Some i
     \<and> day (trips' ! i) = day (trips ! i) \<and> time (trips' ! i) = time (trips ! i)
     \<and> type (trips' ! i) = type (trips ! i)
     \<and> set (map name (participants (trips' ! i))) = set (targetNames cmp st)
     \<and> distinct (map name (participants (trips' ! i)))
     \<and> (\<forall>nm \<in> set (targetNames cmp st). \<forall>p.
           find (\<lambda>p. name p = nm) (participants (trips ! i)) = Some p
             \<longrightarrow> p \<in> set (participants (trips' ! i)))
     \<and> (\<forall>nm \<in> set (targetNames cmp st).
           nm \<notin> name ` set (participants (trips ! i))
             \<longrightarrow> \<lparr>pid = generateParticipantId now nm, name = nm, paid = False\<rparr>
                   \<in> set (participants (trips' ! i)))
     \<and> (\<forall>q \<in> set (participants (trips' ! i)).
           find (\<lambda>p. name p = name q) (participants (trips ! i)) = Some q
           \<or> (name q \<notin> name ` set (participants (trips ! i))
              \<and> q = \<lparr>pid = generateParticipantId now (name q), name = name q, paid = False\<rparr>))"
proof -
  let ?label = "formattedDate dateObj (newTripDate st)"
  let ?names = "targetNames cmp st"
  let ?trips' = "foldl (addTripOfType cmp now ?label ?names) trips (dedupe (newTripTypes st))"
  let ?merged = "mergedParticipants cmp now ?names (trips ! i)"
  from assms(2) have types: "newTripTypes st \<noteq> []" by auto
  from handleAddTrip_saves [OF assms(1) types assms(3,4), of dateObj now]
  obtain st' where st': "handleAddTrip dateObj cmp now st = Some st'"
    and d: "data st' = AList.update ''active_trips'' (Trips ?trips') (data st)"
    and s: "saved st' = saved st @ [data st']" by blast
  have a: "active_trips (data st') = Some ?trips'"
    by (simp add: d active_trips_def update_conv')
  from assms(2) have ty: "ty \<in> set (dedupe (newTripTypes st))" by (simp add: set_dedupe)
  from foldl_addTripOfType [OF assms(5) ty distinct_dedupe, of cmp now ?names]
  have f: "findIndex (\<lambda>t. day t = ?label \<and> type t = ty) ?trips' = Some i"
    and t: "?trips' ! i = (trips ! i)\<lparr>participants := ?merged\<rparr>" by simp_all
  have p: "participants (?trips' ! i) = ?merged" by (simp add: t)
  have "set (map name ?merged) = set ?names" by (rule names_mergedParticipants)
  moreover have "distinct (map name ?merged)"
    by (rule distinct_mergedParticipants) (rule distinct_targetNames)
  moreover have "\<forall>nm \<in> set ?names. \<forall>p.
           find (\<lambda>p. name p = nm) (participants (trips ! i)) = Some p \<longrightarrow> p \<in> set ?merged"
    by (blast intro: kept_mergedParticipants)
  moreover have "\<forall>nm \<in> set ?names. nm \<notin> name ` set (participants (trips ! i))
             \<longrightarrow> \<lparr>pid = generateParticipantId now nm, name = nm, paid = False\<rparr> \<in> set ?merged"
    using fresh_mergedParticipants [of _ ?names "trips ! i" now cmp]
    by (simp add: newParticipant_def)
  moreover have "\<forall>q \<in> set ?merged.
           find (\<lambda>p. name p = name q) (participants (trips ! i)) = Some q
           \<or> (name q \<notin> name ` set (participants (trips ! i))
              \<and> q = \<lparr>pid = generateParticipantId now (name q), name = name q, paid = False\<rparr>)"
    using origin_mergedParticipants [of _ cmp now ?names "trips ! i"]
    by (simp add: newParticipant_def)
  ultimately show ?thesis
    using st' s a f unfolding p by (simp add: t)
qed

theorem handleAddTrip_merges_witness:
  "newTripDate app1 \<noteq> [] \<and> Ida \<in> set (newTripTypes app1)
   \<and> targetNames cmpCodeUnits app1 = [''Ana'', ''Carla'']
   \<and> formattedDate dateObj0 (newTripDate app1) = ''Segunda-feira (03/06)''
   \<and> (\<exists>st' trips'. handleAddTrip dateObj0 cmpCodeUnits 1717412400000 app1 = Some st'
         \<and> active_trips (data st') = Some trips'
         \<and> set (map name (participants (trips' ! 0))) = {''Ana'', ''Carla''}
         \<and> \<lparr>pid = ''p-1-ana'', name = ''Ana'', paid = True\<rparr> \<in> set (participants (trips' ! 0))
         \<and> \<lparr>pid = generateParticipantId 1717412400000 ''Carla'', name = ''Carla'', paid = False\<rparr>
               \<in> set (participants (trips' ! 0)))"
proof -
  let ?trips = "[\<lparr>day = ''Segunda-feira (03/06)'', time = None, type = Ida,
             participants = [\<lparr>pid = ''p-1-ana'', name = ''Ana'', paid = True\<rparr>,
                             \<lparr>pid = ''p-1-bruno'', name = ''Bruno'', paid = False\<rparr>]\<rparr>]"
  have label: "formattedDate dateObj0 (newTripDate app1) = ''Segunda-feira (03/06)''"
    by (simp add: formattedDate_def dateObj0_def app1_def daysPT_def padStart2_def
          nat_to_string.simps digit_char_def)
  have names: "targetNames cmpCodeUnits app1 = [''Ana'', ''Carla'']"
    by (simp add: targetNames_def manualNames_def trim_def is_space_def sortBy_def app1_def)
  have h1: "newTripDate app1 \<noteq> []" by (simp add: app1_def)
  have h2: "Ida \<in> set (newTripTypes app1)" by (simp add: app1_def)
  have h3: "targetNames cmpCodeUnits app1 \<noteq> []" by (simp add: names)
  have h4: "active_trips (data app1) = Some ?trips"
    by (simp add: active_trips_def app1_def doc1_def)
  have h5: "findIndex (\<lambda>t. day t = formattedDate dateObj0 (newTripDate app1) \<and> type t = Ida) ?trips
              = Some 0"
    by (simp add: label)
  from handleAddTrip_merges [OF h1 h2 h3 h4 h5, of 1717412400000]
  obtain st' trips' where run: "handleAddTrip dateObj0 cmpCodeUnits 1717412400000 app1 = Some st'"
    "active_trips (data st') = Some trips'"
    "set (map name (participants (trips' ! 0))) = set (targetNames cmpCodeUnits app1)"
    and kept: "\<forall>nm \<in> set (targetNames cmpCodeUnits app1). \<forall>p.
           find (\<lambda>p. name p = nm) (participants (?trips ! 0)) = Some p
             \<longrightarrow> p \<in> set (participants (trips' ! 0))"
    and fresh: "\<forall>nm \<in> set (targetNames cmpCodeUnits app1).
           nm \<notin> name ` set (participants (?trips ! 0))
             \<longrightarrow> \<lparr>pid = generateParticipantId 1717412400000 nm, name = nm, paid = False\<rparr>
                   \<in> set (participants (trips' ! 0))"
    by blast
  from kept have "\<lparr>pid = ''p-1-ana'', name = ''Ana'', paid = True\<rparr> \<in> set (participants (trips' ! 0))"
    by (simp add: names)
  moreover from fresh
  have "\<lparr>pid = generateParticipantId 1717412400000 ''Carla'', name = ''Carla'', paid = False\<rparr>
               \<in> set (participants (trips' ! 0))"
    by (simp add: names)
  moreover have "set (map name (participants (trips' ! 0))) = {''Ana'', ''Carla''}"
    using run(3) by (simp add: names)
  ultimately show ?thesis using h1 h2 names label run(1,2) by blast
qed

section \<open>Properties of week names\<close>

subsection \<open>Reading back a date input\<close>

lemma digit_char_digit:
  assumes "n < 10"
  shows "is_digit (digit_char n)" and "digit_val (digit_char n) = n"
proof -
  from assms have "n \<in> {0, 1, 2, 3, 4, 5, 6, 7, 8, 9}" by auto
  then show "is_digit (digit_char n)" and "digit_val (digit_char n) = n"
    by (auto simp: digit_char_def is_digit_def digit_val_def)
qed

lemma nat_to_string_digits: "\<forall>c \<in> set (nat_to_string n). is_digit c"
proof (induction n rule: nat_to_string.induct)
  case (1 n)
  show ?case
  proof (cases "n < 10")
    case True
    then show ?thesis by (subst nat_to_string.simps) (simp add: digit_char_digit)
  next
    case False
    with 1 show ?thesis
      by (subst nat_to_string.simps) (simp add: digit_char_digit)
  qed
qed

lemma nat_to_string_not_Nil: "nat_to_string n \<noteq> []"
  by (subst nat_to_string.simps) simp

lemma nat_to_string_value:
  "foldl (\<lambda>a c. 10 * a + digit_val c) 0 (nat_to_string n) = n"
proof (induction n rule: nat_to_string.induct)
  case (1 n)
  show ?case
  proof (cases "n < 10")
    case True
    then show ?thesis by (subst nat_to_string.simps) (simp add: digit_char_digit)
  next
    case False
    with 1 show ?thesis
      by (subst nat_to_string.simps) (simp add: digit_char_digit)
  qed
qed

lemma is_digit_zero: "is_digit CHR ''0''" and digit_val_zero: "digit_val CHR ''0'' = 0"
  by (simp_all add: is_digit_def digit_val_def)

lemma padZeros_digits:
  "\<forall>c \<in> set s. is_digit c \<Longrightarrow> \<forall>c \<in> set (padZeros k s). is_digit c"
  by (auto simp: padZeros_def is_digit_zero)

lemma padZeros_not_Nil: "s \<noteq> [] \<Longrightarrow> padZeros k s \<noteq> []"
  by (simp add: padZeros_def)

lemma zeros_value: "foldl (\<lambda>a c. 10 * a + digit_val c) 0 (replicate j CHR ''0'') = 0"
  by (induction j) (simp_all add: digit_val_zero)

lemma padZeros_value:
  "foldl (\<lambda>a c. 10 * a + digit_val c) 0 (padZeros k s) = foldl (\<lambda>a c. 10 * a + digit_val c) 0 s"
  by (simp add: padZeros_def zeros_value)

lemma parseInt_digits:
  assumes "s \<noteq> []" and "\<forall>c \<in> set s. is_digit c"
  shows "parseInt s = Some (int (foldl (\<lambda>a c. 10 * a + digit_val c) 0 s))"
proof -
  from assms obtain c cs where s: "s = c # cs" and c: "is_digit c" by (cases s) auto
  from c have nsp: "\<not> is_space c" by (auto simp: is_digit_def is_space_def)
  from c have nsign: "c \<noteq> CHR ''-''" "c \<noteq> CHR ''+''" by (auto simp: is_digit_def)
  have nhex: "take 2 s \<noteq> ''0x''" "take 2 s \<noteq> ''0X''"
  proof -
    have "\<not> is_digit CHR ''x''" "\<not> is_digit CHR ''X''" by (simp_all add: is_digit_def)
    with assms(2) have "CHR ''x'' \<notin> set s" "CHR ''X'' \<notin> set s" by auto
    then have "CHR ''x'' \<notin> set (take 2 s)" "CHR ''X'' \<notin> set (take 2 s)"
      by (auto dest: in_set_takeD)
    then show "take 2 s \<noteq> ''0x''" "take 2 s \<noteq> ''0X''" by auto
  qed
  have tw: "takeWhile is_digit s = s" using assms(2) by (simp add: takeWhile_eq_all_conv)
  have dw: "dropWhile is_space s = s" using s nsp by simp
  have t1: "take 1 s = [c]" using s by simp
  show ?thesis
    unfolding parseInt_def dw Let_def t1 using nsign nhex assms(1) by (simp add: tw)
qed

lemma parseInt_padded:
  "parseInt (padZeros k (nat_to_string n)) = Some (int n)"
  using parseInt_digits [OF padZeros_not_Nil [OF nat_to_string_not_Nil]
          padZeros_digits [OF nat_to_string_digits], of k n]
  by (simp add: padZeros_value nat_to_string_value)

lemma split_on_none: "c \<notin> set s \<Longrightarrow> split_on c s = [s]"
  by (induction s) auto

lemma split_on_first: "c \<notin> set a \<Longrightarrow> split_on c (a @ c # rest) = a # split_on c rest"
  by (induction a) auto

lemma digits_no_dash: "\<forall>c \<in> set s. is_digit c \<Longrightarrow> CHR ''-'' \<notin> set s"
  by (auto simp: is_digit_def)

lemma split_isoDate:
  "split_on CHR ''-'' (isoDate y m d) =
     [padZeros 4 (nat_to_string y), padZeros 2 (nat_to_string m), padZeros 2 (nat_to_string d)]"
proof -
  have nd: "CHR ''-'' \<notin> set (padZeros k (nat_to_string n))" for k n
    by (rule digits_no_dash, rule padZeros_digits, rule nat_to_string_digits)
  show ?thesis
    unfolding isoDate_def using nd by (simp add: split_on_first split_on_none)
qed

lemma isoDate_not_Nil: "isoDate y m d \<noteq> []"
  by (simp add: isoDate_def)

subsection \<open>The calendar\<close>

lemma days_in_month_bounds: "28 \<le> days_in_month y m" "days_in_month y m \<le> 31"
  by (simp_all add: days_in_month_def)

lemma days_in_month_pos: "Suc 0 \<le> days_in_month y m"
  by (simp add: days_in_month_def)

lemma next_day_valid: "valid_date x \<Longrightarrow> valid_date (next_day x)"
  by (cases x) (auto simp: valid_date_def days_in_month_pos)

lemma next_day_year: "fst x \<le> fst (next_day x) \<and> fst (next_day x) \<le> fst x + 1"
  by (cases x) auto

lemma funpow_next_day_valid: "valid_date x \<Longrightarrow> valid_date ((next_day ^^ k) x)"
  by (induction k) (simp_all add: next_day_valid)

lemma funpow_next_day_year:
  "fst x \<le> fst ((next_day ^^ k) x) \<and> fst ((next_day ^^ k) x) \<le> fst x + int k"
proof (induction k)
  case 0
  then show ?case by simp
next
  case (Suc k)
  from next_day_year [of "(next_day ^^ k) x"] Suc show ?case by simp
qed

text \<open>Counting leap years: the step from one year to the next.\<close>

lemma div_pred:
  fixes y k :: int
  assumes "0 < k"
  shows "y div k = (y - 1) div k + (if y mod k = 0 then 1 else 0)"
proof (cases "y mod k = 0")
  case True
  have "k * (y div k) + y mod k = y" by (rule mult_div_mod_eq)
  with True have "y = k * (y div k)" by simp
  then have "y - 1 = k * (y div k - 1) + (k - 1)" by (simp add: algebra_simps)
  then have "(y - 1) div k = y div k - 1"
    using assms by (intro int_div_pos_eq [where r = "k - 1"]) simp_all
  with True show ?thesis by simp
next
  case False
  have r: "0 \<le> y mod k" "y mod k < k" using assms by simp_all
  with False have r1: "0 \<le> y mod k - 1" by simp
  have "y - 1 = k * (y div k) + (y mod k - 1)" by simp
  then have "(y - 1) div k = y div k"
    using r r1 by (intro int_div_pos_eq [where r = "y mod k - 1"]) simp_all
  with False show ?thesis by simp
qed

lemma mod_steps: "(y::int) mod 100 = 0 \<Longrightarrow> y mod 4 = 0" "(y::int) mod 400 = 0 \<Longrightarrow> y mod 100 = 0"
proof -
  have "y mod 100 mod 4 = y mod 4" by (rule mod_mod_cancel) simp
  then show "y mod 100 = 0 \<Longrightarrow> y mod 4 = 0" by simp
  have "y mod 400 mod 100 = y mod 100" by (rule mod_mod_cancel) simp
  then show "y mod 400 = 0 \<Longrightarrow> y mod 100 = 0" by simp
qed

lemma leap_count:
  "y div 4 - y div 100 + y div 400
      = (y - 1) div 4 - (y - 1) div 100 + (y - 1) div 400 + (if is_leap y then 1 else 0)"
proof -
  define b4 b100 b400 where "b4 = y div 4" and "b100 = y div 100" and "b400 = y div 400"
  define a4 a100 a400 where "a4 = (y - 1) div 4" and "a100 = (y - 1) div 100"
    and "a400 = (y - 1) div 400"
  define p4 p100 p400 where "p4 \<longleftrightarrow> y mod 4 = 0" and "p100 \<longleftrightarrow> y mod 100 = 0"
    and "p400 \<longleftrightarrow> y mod 400 = 0"
  have e: "b4 = a4 + (if p4 then 1 else 0)" "b100 = a100 + (if p100 then 1 else 0)"
    "b400 = a400 + (if p400 then 1 else 0)"
    unfolding b4_def b100_def b400_def a4_def a100_def a400_def p4_def p100_def p400_def
    by (rule div_pred, simp)+
  have l: "is_leap y \<longleftrightarrow> p4 \<and> (\<not> p100 \<or> p400)"
    unfolding is_leap_def p4_def p100_def p400_def by (rule refl)
  have d: "p100 \<Longrightarrow> p4" "p400 \<Longrightarrow> p100"
    unfolding p4_def p100_def p400_def by (rule mod_steps, assumption)+
  have "b4 - b100 + b400 = a4 - a100 + a400 + (if is_leap y then 1 else 0)"
    using e d unfolding l by (cases p4; cases p100; cases p400) auto
  then show ?thesis
    by (simp only: b4_def b100_def b400_def a4_def a100_def a400_def)
qed

lemma day_number_end_of_February:
  "day_number (y, 2, 1) = day_number (y, 1, days_in_month y 1) + 1"
proof -
  define P Q where "P = y div 4 - y div 100 + y div 400"
    and "Q = (y - 1) div 4 - (y - 1) div 100 + (y - 1) div 400"
  have a: "day_number (y, 2, 1) = 365 * y + P - 719468"
    by (simp add: Let_def P_def)
  have b: "day_number (y, 1, days_in_month y 1) =
             365 * (y - 1) + Q + (if is_leap y then 29 else 28) - 719132"
    by (simp add: Let_def days_in_month_def Q_def)
  have c: "P = Q + (if is_leap y then 1 else 0)"
    unfolding P_def Q_def by (rule leap_count)
  show ?thesis
    unfolding a b c by (cases "is_leap y") simp_all
qed

lemma day_number_end_of_year: "day_number (y + 1, 0, 1) = day_number (y, 11, 31) + 1"
  by (simp add: Let_def)

text \<open>The day after a valid date has the next day number: the calendar that steps
  from day to day agrees with the count of days.\<close>

lemma day_number_next_day:
  assumes "valid_date x"
  shows "day_number (next_day x) = day_number x + 1"
proof -
  obtain y m d where x: "x = (y, m, d)" by (cases x)
  from assms x have m: "m < 12" and d: "1 \<le> d" "d \<le> days_in_month y m"
    by (simp_all add: valid_date_def)
  show ?thesis
  proof (cases "d < days_in_month y m")
    case True
    then show ?thesis unfolding x by (simp add: Let_def)
  next
    case False
    with d have last: "d = days_in_month y m" by simp
    from m have "m = 0 \<or> m = 1 \<or> m = 2 \<or> m = 3 \<or> m = 4 \<or> m = 5 \<or> m = 6
      \<or> m = 7 \<or> m = 8 \<or> m = 9 \<or> m = 10 \<or> m = 11" by presburger
    then consider "m = 1" | "m = 11"
      | "m = 0 \<or> m = 2 \<or> m = 3 \<or> m = 4 \<or> m = 5 \<or> m = 6 \<or> m = 7 \<or> m = 8 \<or> m = 9 \<or> m = 10"
      by blast
    then show ?thesis
    proof cases
      case 1
      with last x day_number_end_of_February [of y] show ?thesis by simp
    next
      case 2
      with last x day_number_end_of_year [of y] show ?thesis
        by (simp add: days_in_month_def)
    next
      case 3
      with last x show ?thesis
        by (auto simp: days_in_month_def Let_def)
    qed
  qed
qed

lemma next_days_in_month:
  "d + k \<le> days_in_month y m \<Longrightarrow> (next_day ^^ k) (y, m, d) = (y, m, d + k)"
proof (induction k arbitrary: d)
  case 0
  then show ?case by simp
next
  case (Suc k)
  from Suc.prems have "d < days_in_month y m" and "Suc d + k \<le> days_in_month y m" by simp_all
  then show ?case using Suc.IH [of "Suc d"] by (simp add: funpow_swap1)
qed

lemma MakeDay_valid:
  assumes "valid_date (y, m, d)"
  shows "MakeDay y (int m) (int d) = (y, m, d)"
proof -
  from assms have m: "m < 12" and d: "1 \<le> d" "d \<le> days_in_month y m"
    by (simp_all add: valid_date_def)
  from m have "int m div 12 = 0" "nat (int m mod 12) = m" by simp_all
  moreover from d have "nat (int d - 1) = d - 1" by simp
  moreover from d have "(next_day ^^ (d - 1)) (y, m, 1) = (y, m, 1 + (d - 1))"
    by (intro next_days_in_month) simp
  ultimately show ?thesis using d by (simp add: MakeDay_def shift_days_def)
qed

lemma MakeDay_later:
  assumes "valid_date (y, m, d)"
  shows "MakeDay y (int m) (int d + int k) = (next_day ^^ k) (y, m, d)"
proof -
  from assms have d: "1 \<le> d" "d \<le> days_in_month y m" and m: "m < 12"
    by (simp_all add: valid_date_def)
  from m have mm: "int m div 12 = 0" "nat (int m mod 12) = m" by simp_all
  from d have n: "nat (int d + int k - 1) = k + (d - 1)" by simp
  from d have "(next_day ^^ (d - 1)) (y, m, 1) = (y, m, 1 + (d - 1))"
    by (intro next_days_in_month) simp
  with d have "(next_day ^^ (d - 1)) (y, m, 1) = (y, m, d)" by simp
  then have "(next_day ^^ (k + (d - 1))) (y, m, 1) = (next_day ^^ k) (y, m, d)"
    by (simp add: funpow_add)
  with d show ?thesis by (simp add: MakeDay_def shift_days_def mm n)
qed

lemma formatDate_Date:
  "formatDate (Date (y, m, d) tod) =
     padStart2 (nat_to_string d) @ ''/'' @ padStart2 (nat_to_string (Suc m)) @ ''/'' @ int_to_string y"
  by (simp add: formatDate_def String_num_def int_to_string_def nat_add_distrib)

subsection \<open>The format of a date\<close>

lemma nat_to_string_digit: "n < 10 \<Longrightarrow> nat_to_string n = [digit_char n]"
  by (subst nat_to_string.simps) simp

lemma nat_to_string_more:
  "10 \<le> n \<Longrightarrow> nat_to_string n = nat_to_string (n div 10) @ [digit_char (n mod 10)]"
  by (subst nat_to_string.simps) simp

lemma padStart2_two_digits:
  assumes "n < 100"
  shows "padStart2 (nat_to_string n) = two_digits n"
proof (cases "n < 10")
  case True
  then show ?thesis
    by (simp add: nat_to_string_digit padStart2_def two_digits_def digit_char_def)
next
  case False
  with assms have "n div 10 < 10" by simp
  with False show ?thesis
    by (simp add: nat_to_string_more nat_to_string_digit padStart2_def two_digits_def)
qed

lemma nat_to_string_four_digits:
  assumes "1000 \<le> n" and "n < 10000"
  shows "nat_to_string n = four_digits n"
proof -
  have a: "nat_to_string n = nat_to_string (n div 10) @ [digit_char (n mod 10)]"
    using assms by (intro nat_to_string_more) simp
  have b: "nat_to_string (n div 10) = nat_to_string (n div 100) @ [digit_char (n div 10 mod 10)]"
    using assms nat_to_string_more [of "n div 10"] by (simp add: div_mult2_eq [symmetric])
  have c: "nat_to_string (n div 100) = nat_to_string (n div 1000) @ [digit_char (n div 100 mod 10)]"
    using assms nat_to_string_more [of "n div 100"] by (simp add: div_mult2_eq [symmetric])
  have d: "nat_to_string (n div 1000) = [digit_char (n div 1000)]"
    using assms by (intro nat_to_string_digit) simp
  show ?thesis unfolding a b c d four_digits_def by simp
qed

lemma formatDate_DDMMYYYY:
  assumes "valid_date (y, m, d)" and "1000 \<le> y" and "y \<le> 9999"
  shows "formatDate (Date (y, m, d) tod) = DDMMYYYY (y, m, d)"
proof -
  from assms(1) have m: "Suc m < 100" and d: "d < 100"
    using days_in_month_bounds(2) [of y m] by (simp_all add: valid_date_def)
  from assms(2,3) have y: "1000 \<le> nat y" "nat y < 10000" by simp_all
  from assms(2) have "int_to_string y = nat_to_string (nat y)" by (simp add: int_to_string_def)
  then show ?thesis
    by (simp add: formatDate_Date DDMMYYYY_def padStart2_two_digits [OF m]
          padStart2_two_digits [OF d] nat_to_string_four_digits [OF y])
qed

subsection \<open>The name of a week\<close>

lemma generateWeekName_parts:
  "generateWeekName zone (isoDate y m d) =
     (let startDate = new_Date zone (Some (int y)) (Some (int m - 1)) (Some (int d));
          endDate = setDate zone startDate (map_option (\<lambda>d. d + 4) (getDate startDate))
      in Some (''Semana '' @ formatDate startDate @ '' - '' @ formatDate endDate))"
proof -
  have p: "parseIntAt (split_on CHR ''-'' (isoDate y m d)) 0 = Some (int y)"
    "parseIntAt (split_on CHR ''-'' (isoDate y m d)) 1 = Some (int m)"
    "parseIntAt (split_on CHR ''-'' (isoDate y m d)) 2 = Some (int d)"
    by (simp_all add: split_isoDate parseIntAt_def parseInt_padded)
  show ?thesis
    unfolding generateWeekName_def Let_def p using isoDate_not_Nil [of y m d] by simp
qed

text \<open>
  The dates the code builds, for a valid calendar date of a year from 100 on: the
  start date is what the zone makes of local midnight of that day, and the end date
  is what the zone makes of the fourth day after the day the start date shows, at the
  time of day the start date shows.
\<close>

lemma generateWeekName_dates:
  assumes "100 \<le> y" and "1 \<le> m" and "valid_date (int y, m - 1, d)"
    and "zone ((int y, m - 1, d), 0) = Some (s, tod)" and "valid_date s"
    and "zone ((next_day ^^ 4) s, tod) = Some (e, tod')"
  shows "generateWeekName zone (isoDate y m d) =
           Some (''Semana '' @ formatDate (Date s tod) @ '' - '' @ formatDate (Date e tod'))"
proof -
  obtain ys ms ds where s: "s = (ys, ms, ds)" by (cases s)
  have im: "int (m - 1) = int m - 1" using assms(2) by simp
  have ms: "MakeDay (int y) (int m - 1) (int d) = (int y, m - 1, d)"
    using MakeDay_valid [OF assms(3)] by (simp only: im)
  have "\<not> (0 \<le> int y \<and> int y \<le> 99)" using assms(1) by simp
  then have start: "new_Date zone (Some (int y)) (Some (int m - 1)) (Some (int d)) = Date s tod"
    unfolding new_Date_def fromLocal_def
    by (simp only: option.case prod.case if_False ms assms(4))
  have gd: "getDate (Date s tod) = Some (int ds)" by (simp add: s)
  have me: "MakeDay ys (int ms) (int ds + 4) = (next_day ^^ 4) s"
    using MakeDay_later [of ys ms ds 4] assms(5) unfolding s by (simp only: of_nat_numeral)
  have sd: "setDate zone (Date s tod) (Some (int ds + 4)) = Date e tod'"
    unfolding s setDate.simps fromLocal_def me [unfolded s]
    using assms(6) [unfolded s] by (simp only: option.case prod.case)
  show ?thesis
    unfolding generateWeekName_parts Let_def start gd by (simp only: option.map sd)
qed

lemma funpow_unfold: "(f ^^ n) x = (if n = 0 then x else (f ^^ (n - 1)) (f x))"
  by (cases n) (simp_all add: funpow_swap1)

lemma isoDate_examples:
  "isoDate 2024 6 3 = ''2024-06-03''" "isoDate 2024 6 29 = ''2024-06-29''"
  "isoDate 2011 12 26 = ''2011-12-26''"
  by (simp_all add: isoDate_def padZeros_def nat_to_string.simps digit_char_def)

lemma next_day_examples:
  "(next_day ^^ 4) (2024, 5, 3) = (2024, 5, 7)" "(next_day ^^ 5) (2024, 5, 3) = (2024, 5, 8)"
  "(next_day ^^ 4) (2024, 5, 29) = (2024, 6, 3)" "(next_day ^^ 4) (2011, 11, 26) = (2011, 11, 30)"
  by (simp_all add: funpow_unfold days_in_month_def)

lemma formatDate_examples:
  "formatDate (Date (2024, 5, 3) 0) = ''03/06/2024''"
  "formatDate (Date (2024, 5, 7) 0) = ''07/06/2024''"
  "formatDate (Date (2011, 11, 26) 0) = ''26/12/2011''"
  "formatDate (Date (2011, 11, 31) 0) = ''31/12/2011''"
  by (simp_all add: formatDate_Date padStart2_def int_to_string_def nat_to_string.simps
        digit_char_def)

lemma DDMMYYYY_examples:
  "DDMMYYYY (2024, 5, 8) = ''08/06/2024''" "DDMMYYYY (2024, 5, 29) = ''29/06/2024''"
  "DDMMYYYY (2024, 6, 3) = ''03/07/2024''"
  by (simp_all add: DDMMYYYY_def two_digits_def four_digits_def digit_char_def)

text \<open>
  Where the zone drops a day the end date is not the fourth day after the start date:
  in Pacific/Apia the week of 26 December 2011 ends on 31 December, since 30 December
  was not a day there.
\<close>

lemma generateWeekName_apia:
  "generateWeekName apia ''2011-12-26'' = Some ''Semana 26/12/2011 - 31/12/2011''"
proof -
  have v: "valid_date (int 2011, 12 - 1, 26)" "valid_date (2011, 11, 26)"
    by (simp_all add: valid_date_def days_in_month_def)
  have z: "apia ((int 2011, 12 - 1, 26), 0) = Some ((2011, 11, 26), 0)"
    "apia ((next_day ^^ 4) (2011, 11, 26), 0) = Some ((2011, 11, 31), 0)"
    by (simp_all add: apia_def next_day_examples)
  from generateWeekName_dates [of 2011 12 26 apia, OF _ _ v(1) z(1) v(2) z(2)]
  show ?thesis by (simp add: isoDate_examples formatDate_examples)
qed

text \<open>
  Claim C7, as stated: the end date is five calendar days after the start date. It
  fails on the code, which adds 4 to the day of the month: in a zone where every local
  time exists, for the week of Monday 3 June 2024 the name ends on 7 June, and the
  fifth day after the start is 8 June.
\<close>

theorem generateWeekName_five_days_counterexample:
  "generateWeekName constantOffset ''2024-06-03'' = Some ''Semana 03/06/2024 - 07/06/2024''
   \<and> DDMMYYYY ((next_day ^^ 5) (2024, 5, 3)) = ''08/06/2024''"
proof -
  have v: "valid_date (int 2024, 6 - 1, 3)" "valid_date (2024, 5, 3)"
    by (simp_all add: valid_date_def days_in_month_def)
  have z: "constantOffset ((int 2024, 6 - 1, 3), 0) = Some ((2024, 5, 3), 0)"
    "constantOffset ((next_day ^^ 4) (2024, 5, 3), 0) = Some ((2024, 5, 7), 0)"
    by (simp_all add: constantOffset_def next_day_examples)
  from generateWeekName_dates [of 2024 6 3 constantOffset, OF _ _ v(1) z(1) v(2) z(2)]
  show ?thesis
    by (simp add: isoDate_examples next_day_examples formatDate_examples DDMMYYYY_examples)
qed

text \<open>
  Claim C7, amended: take the text \<open>YYYY-MM-DD\<close> of a calendar date whose year and the
  year of its fourth day after have four digits (1000 to 9999), in a time zone that
  does not move local midnight of the start date to another day, nor the same time of
  day on the fourth day after to another day. Then the name is \<open>Semana\<close>, the start
  date, a dash and the end date, both as \<open>DD/MM/YYYY\<close>, where the end date is the fourth
  calendar day after the start date, so that the two dates span five days. For the
  empty text there is no name.
\<close>

theorem generateWeekName_four_days_later:
  assumes "1000 \<le> y" and "1 \<le> m" and "valid_date (int y, m - 1, d)"
    and "fst ((next_day ^^ 4) (int y, m - 1, d)) \<le> 9999"
    and "zone ((int y, m - 1, d), 0) = Some ((int y, m - 1, d), tod)"
    and "zone ((next_day ^^ 4) (int y, m - 1, d), tod) = Some ((next_day ^^ 4) (int y, m - 1, d), tod')"
  shows "generateWeekName zone (isoDate y m d) =
           Some (''Semana '' @ DDMMYYYY (int y, m - 1, d) @ '' - ''
                   @ DDMMYYYY ((next_day ^^ 4) (int y, m - 1, d)))
         \<and> generateWeekName zone [] = None"
proof
  define s where "s = (int y, m - 1, d)"
  define e where "e = (next_day ^^ 4) s"
  have vs: "valid_date s" using assms(3) by (simp add: s_def)
  have ve: "valid_date e" unfolding e_def using vs by (rule funpow_next_day_valid)
  have "fst s \<le> fst e" unfolding e_def using funpow_next_day_year [of s 4] by simp
  then have ye: "1000 \<le> fst e" "fst e \<le> 9999"
    using assms(1,4) by (simp_all add: s_def e_def)
  have "fst s \<le> fst e" by fact
  with ye(2) have ys: "int y \<le> 9999" by (simp add: s_def)
  have "100 \<le> y" using assms(1) by simp
  from generateWeekName_dates [OF this assms(2,3) assms(5) assms(3) assms(6)]
  have n: "generateWeekName zone (isoDate y m d) =
           Some (''Semana '' @ formatDate (Date s tod) @ '' - '' @ formatDate (Date e tod'))"
    by (simp only: s_def e_def)
  have fs: "formatDate (Date s tod) = DDMMYYYY s"
    unfolding s_def using assms(1,3) ys by (intro formatDate_DDMMYYYY) simp_all
  obtain ye' me' de' where e: "e = (ye', me', de')" by (cases e)
  have fe: "formatDate (Date e tod') = DDMMYYYY e"
    unfolding e using ve ye by (intro formatDate_DDMMYYYY) (simp_all add: e)
  show "generateWeekName zone (isoDate y m d) =
           Some (''Semana '' @ DDMMYYYY (int y, m - 1, d) @ '' - ''
                   @ DDMMYYYY ((next_day ^^ 4) (int y, m - 1, d)))"
    using n unfolding fs fe by (simp only: s_def e_def)
  show "generateWeekName zone [] = None"
    by (simp add: generateWeekName_def)
qed

theorem generateWeekName_four_days_later_witness:
  "valid_date (2024, 5, 29) \<and> isoDate 2024 6 29 = ''2024-06-29''
   \<and> (next_day ^^ 4) (2024, 5, 29) = (2024, 6, 3)
   \<and> constantOffset ((2024, 5, 29), 0) = Some ((2024, 5, 29), 0)
   \<and> constantOffset ((2024, 6, 3), 0) = Some ((2024, 6, 3), 0)
   \<and> generateWeekName constantOffset ''2024-06-29'' = Some ''Semana 29/06/2024 - 03/07/2024''"
proof -
  have v: "valid_date (int 2024, 6 - 1, 29)"
    by (simp add: valid_date_def days_in_month_def)
  have y: "fst ((next_day ^^ 4) (int 2024, 6 - 1, 29)) \<le> 9999"
    by (simp add: next_day_examples)
  have z: "constantOffset ((int 2024, 6 - 1, 29), 0) = Some ((int 2024, 6 - 1, 29), 0)"
    "constantOffset ((next_day ^^ 4) (int 2024, 6 - 1, 29), 0)
       = Some ((next_day ^^ 4) (int 2024, 6 - 1, 29), 0)"
    by (simp_all add: constantOffset_def)
  from generateWeekName_four_days_later [of 2024 6 29 constantOffset 0 0, OF _ _ v y z]
  have "generateWeekName constantOffset ''2024-06-29'' = Some ''Semana 29/06/2024 - 03/07/2024''"
    by (simp add: isoDate_examples next_day_examples DDMMYYYY_examples)
  with v show ?thesis by (simp add: isoDate_examples next_day_examples constantOffset_def)
qed

section \<open>Properties of the debounced save\<close>

lemma saveAppData_timers:
  assumes "one_pending s"
  shows "timers (saveAppData t stored d s) = [(Suc (timerCount s), t + 1000, d)]"
    and "saveTimeout (saveAppData t stored d s) = Some (Suc (timerCount s))"
    and "remote (saveAppData t stored d s) = remote s"
  using assms
  by (auto simp: saveAppData_def setTimeout_def clearTimeout_def one_pending_def Let_def
        split: option.splits)

lemma one_pending_saveAppData: "one_pending s \<Longrightarrow> one_pending (saveAppData t stored d s)"
  by (simp add: one_pending_def [of "saveAppData t stored d s"] saveAppData_timers)

lemma one_pending_runTimers:
  assumes "one_pending s"
  shows "one_pending (runTimers t s)"
proof (cases "timers s = []")
  case True
  then show ?thesis by (simp add: one_pending_def runTimers_def)
next
  case False
  with assms obtain i due d where "timers s = [(i, due, d)]" "saveTimeout s = Some i"
    by (auto simp: one_pending_def)
  then show ?thesis
    by (cases "due \<le> t") (simp_all add: one_pending_def runTimers_def)
qed

lemma one_pending_step: "one_pending s \<Longrightarrow> one_pending (step s e)"
  by (cases e) (simp_all add: one_pending_saveAppData one_pending_runTimers)

lemma one_pending_run: "one_pending s \<Longrightarrow> one_pending (run es s)"
  unfolding run_def by (induction es arbitrary: s) (simp_all add: one_pending_step)

lemma one_pending_sync0: "one_pending sync0"
  by (simp add: one_pending_def sync0_def)

text \<open>During the quiet period nothing is sent, and the one pending timer carries the
  document of the latest save.\<close>

lemma run_quiet:
  assumes "quiet ls now es" and "timers s = [(i, ls + 1000, d)]" and "saveTimeout s = Some i"
  shows "remote (run es s) = remote s
       \<and> (\<exists>j. timers (run es s) = [(j, fst (lastSave (ls, d) es) + 1000, snd (lastSave (ls, d) es))]
              \<and> saveTimeout (run es s) = Some j)"
  using assms
proof (induction es arbitrary: ls now s i d)
  case Nil
  then show ?case by (simp add: run_def)
next
  case (Cons e es)
  show ?case
  proof (cases e)
    case (Save t stored d')
    with Cons.prems have q: "quiet t t es" by simp
    from Cons.prems(2,3) have op: "one_pending s" by (simp add: one_pending_def)
    let ?s = "saveAppData t stored d' s"
    from Cons.IH [OF q saveAppData_timers(1) [OF op] saveAppData_timers(2) [OF op]]
    have "remote (run es ?s) = remote ?s
       \<and> (\<exists>j. timers (run es ?s) = [(j, fst (lastSave (t, d') es) + 1000, snd (lastSave (t, d') es))]
              \<and> saveTimeout (run es ?s) = Some j)" .
    then show ?thesis
      using Save by (simp add: run_def saveAppData_timers(3) [OF op])
  next
    case (Tick t)
    with Cons.prems have q: "quiet ls t es" and t: "t < ls + 1000" by simp_all
    let ?s = "runTimers t s"
    from t Cons.prems(2,3) have s: "timers ?s = [(i, ls + 1000, d)]" "saveTimeout ?s = Some i"
      "remote ?s = remote s"
      by (simp_all add: runTimers_def)
    from Cons.IH [OF q s(1,2)] s(3) show ?thesis
      using Tick by (simp add: run_def)
  qed
qed

text \<open>
  Claim C2: a first save at time \<open>t\<close>, in a state with at most one pending timer, is
  followed by any events that each come less than 1000 ms after the latest save before
  them: further saves, and turns of the event loop. Then, whatever the number of
  saves, nothing is sent during these events; when the event loop next takes its turn
  1000 ms or more after the last save, exactly one document is sent, the one of the
  last save; and no timer is left, so that later turns send nothing more.
\<close>

theorem saveAppData_debounced:
  assumes "one_pending s" and "quiet t t es" and "fst (lastSave (t, d) es) + 1000 \<le> T"
    and "T \<le> T'"
  shows "remote (run es (saveAppData t stored d s)) = remote s
       \<and> remote (runTimers T (run es (saveAppData t stored d s)))
            = remote s @ [snd (lastSave (t, d) es)]
       \<and> timers (runTimers T (run es (saveAppData t stored d s))) = []
       \<and> remote (runTimers T' (runTimers T (run es (saveAppData t stored d s))))
            = remote s @ [last (d # saves es)]"
proof -
  let ?s = "saveAppData t stored d s"
  from run_quiet [OF assms(2) saveAppData_timers(1) [OF assms(1)] saveAppData_timers(2) [OF assms(1)]]
  obtain j where r: "remote (run es ?s) = remote s"
    and tm: "timers (run es ?s) = [(j, fst (lastSave (t, d) es) + 1000, snd (lastSave (t, d) es))]"
    by (auto simp: saveAppData_timers(3) [OF assms(1)])
  have l: "snd (lastSave (t', d') es) = last (d' # saves es)" for t' d'
    by (induction es arbitrary: t' d' rule: saves.induct) simp_all
  from r tm assms(3) show ?thesis
    by (simp add: runTimers_def l)
qed

theorem saveAppData_debounced_witness:
  "one_pending sync0
   \<and> quiet 0 0 [Save 300 True (take 2 doc1), Tick 900, Save 1200 True (take 1 doc1), Tick 2100]
   \<and> remote (run [Save 300 True (take 2 doc1), Tick 900, Save 1200 True (take 1 doc1), Tick 2100]
               (saveAppData 0 True doc1 sync0)) = []
   \<and> remote (runTimers 2200 (run [Save 300 True (take 2 doc1), Tick 900, Save 1200 True (take 1 doc1),
                                   Tick 2100] (saveAppData 0 True doc1 sync0))) = [take 1 doc1]"
  using saveAppData_debounced [of sync0 0
          "[Save 300 True (take 2 doc1), Tick 900, Save 1200 True (take 1 doc1), Tick 2100]"
          doc1 2200 2200 True]
  by (simp add: one_pending_sync0) (simp add: sync0_def)

text \<open>Without a later save the timer of a save fires as soon as the event loop takes
  its turn after the delay; a save that comes only then starts a new period, and
  both documents are sent.\<close>

lemma two_periods:
  "remote (run [Save 0 True doc1, Tick 1000, Save 1000 True (take 2 doc1), Tick 2000] sync0)
     = [doc1, take 2 doc1]"
  by (simp add: run_def saveAppData_def setTimeout_def clearTimeout_def runTimers_def sync0_def
        Let_def)

end
